theory Spec2Isabelle
  imports Main "HOL-Library.Sublist"
begin

section \<open>JavaScript string operations used by the plugin\<close>

text \<open>
  A string is a list of 8-bit characters, each read as the UTF-16 code unit of the same
  number: the strings of the model are the JavaScript strings whose code units are all
  below 256 (ASCII and Latin-1). The operations below are the string methods and
  regular-expression replacements that \<^verbatim>\<open>src/main.ts\<close> applies, each named after
  the expression it stands for.
\<close>

definition slash :: char where
  "slash = CHR ''/''"

definition backslash :: char where
  "backslash = CHR 0x5C"

definition isSep :: "char \<Rightarrow> bool" where
  "isSep c = (c = slash \<or> c = backslash)"

text \<open>\<^verbatim>\<open>s.startsWith(p)\<close>\<close>

definition startsWith :: "string \<Rightarrow> string \<Rightarrow> bool" where
  "startsWith s p = prefix p s"

text \<open>\<^verbatim>\<open>s.includes(p)\<close>\<close>

definition js_includes :: "string \<Rightarrow> string \<Rightarrow> bool" where
  "js_includes s p = sublist p s"

text \<open>\<^verbatim>\<open>s.replace(/\\/g, '/')\<close>; \<^verbatim>\<open>s.replace(/[\/\\]/g, '/')\<close> has the same effect.\<close>

definition replaceBackslashes :: "string \<Rightarrow> string" where
  "replaceBackslashes s = map (\<lambda>c. if c = backslash then slash else c) s"

text \<open>\<^verbatim>\<open>s.replace(/\/$/, '')\<close>: one trailing slash is removed.\<close>

definition stripTrailingSlash :: "string \<Rightarrow> string" where
  "stripTrailingSlash s = (if s \<noteq> [] \<and> last s = slash then butlast s else s)"

text \<open>\<^verbatim>\<open>s.replace(/[\\\/]+$/, '')\<close>: the whole trailing run of separators is removed.\<close>

definition stripTrailingSeps :: "string \<Rightarrow> string" where
  "stripTrailingSeps s = rev (dropWhile isSep (rev s))"

text \<open>\<^verbatim>\<open>s.replace(/^[\/\\]/, '')\<close>: one leading separator is removed.\<close>

definition stripLeadingSep :: "string \<Rightarrow> string" where
  "stripLeadingSep s = (case s of [] \<Rightarrow> [] | c # cs \<Rightarrow> if isSep c then cs else s)"

text \<open>
  \<^verbatim>\<open>s.toLowerCase()\<close>: below 256 the cased letters are A to Z (65 to 90) and the
  Latin-1 capitals U+00C0 to U+00DE without the multiplication sign U+00D7; each has its
  small letter 32 places further on. No other code unit below 256 changes.
\<close>

definition lowerChar :: "char \<Rightarrow> char" where
  "lowerChar c =
     (let n = (of_char c :: nat)
      in if (65 \<le> n \<and> n \<le> 90) \<or> (192 \<le> n \<and> n \<le> 222 \<and> n \<noteq> 215)
         then char_of (n + 32) else c)"

definition toLowerCase :: "string \<Rightarrow> string" where
  "toLowerCase s = map lowerChar s"

text \<open>\<^verbatim>\<open>s.split(c)\<close> for a one-character separator: never the empty list.\<close>

fun split_on :: "char \<Rightarrow> string \<Rightarrow> string list" where
  "split_on c [] = [[]]"
| "split_on c (x # xs) =
     (if x = c then [] # split_on c xs
      else (case split_on c xs of [] \<Rightarrow> [[x]] | s # ss \<Rightarrow> (x # s) # ss))"

text \<open>\<^verbatim>\<open>parts.join(sep)\<close>\<close>

fun join_with :: "string \<Rightarrow> string list \<Rightarrow> string" where
  "join_with sep [] = []"
| "join_with sep [s] = s"
| "join_with sep (s # t # ss) = s @ sep @ join_with sep (t # ss)"

subsection \<open>Percent encoding\<close>

definition hexDigit :: "nat \<Rightarrow> char" where
  "hexDigit n = ''0123456789ABCDEF'' ! (n mod 16)"

text \<open>
  A code unit is escaped as the bytes of its UTF-8 encoding: one byte below 128, and from
  128 to 255 the two bytes \<open>192 + n div 64\<close> and \<open>128 + n mod 64\<close>.
\<close>

definition percentByte :: "nat \<Rightarrow> string" where
  "percentByte b = [CHR ''%'', hexDigit (b div 16), hexDigit (b mod 16)]"

definition percentEncode :: "char \<Rightarrow> string" where
  "percentEncode c =
     (let n = (of_char c :: nat)
      in if n < 128 then percentByte n
         else percentByte (192 + n div 64) @ percentByte (128 + n mod 64))"

definition isAlphaNum :: "char \<Rightarrow> bool" where
  "isAlphaNum c =
     (let n = (of_char c :: nat)
      in (48 \<le> n \<and> n \<le> 57) \<or> (65 \<le> n \<and> n \<le> 90) \<or> (97 \<le> n \<and> n \<le> 122))"

text \<open>\<^verbatim>\<open>encodeURIComponent\<close> keeps letters, digits and \<^verbatim>\<open>-_.!~*'()\<close>.\<close>

definition uriUnreserved :: "char \<Rightarrow> bool" where
  "uriUnreserved c = (isAlphaNum c \<or> c \<in> set (''-_.!~*()'' @ [CHR 0x27]))"

definition encodeURIComponent :: "string \<Rightarrow> string" where
  "encodeURIComponent s = concat (map (\<lambda>c. if uriUnreserved c then [c] else percentEncode c) s)"

text \<open>\<^verbatim>\<open>encodeURI\<close> keeps, in addition, the reserved characters \<^verbatim>\<open>;/?:@&=+$,#\<close>.\<close>

definition encodeURI :: "string \<Rightarrow> string" where
  "encodeURI s =
     concat (map (\<lambda>c. if uriUnreserved c \<or> c \<in> set '';/?:@&=+$,#'' then [c]
                       else percentEncode c) s)"

section \<open>The \<^verbatim>\<open>path.posix\<close> functions of Node.js\<close>

text \<open>
  \<^verbatim>\<open>normalizeString\<close> walks the slash-separated segments of a path: empty segments
  and \<^verbatim>\<open>.\<close> are dropped, \<^verbatim>\<open>..\<close> removes the segment before it, or is kept when
  the path is relative and there is nothing left to remove. The accumulator \<open>res\<close> holds
  the segments kept so far, the last one first.
\<close>

fun normalizeSegments :: "bool \<Rightarrow> string list \<Rightarrow> string list \<Rightarrow> string list" where
  "normalizeSegments allowAboveRoot [] res = rev res"
| "normalizeSegments allowAboveRoot (seg # segs) res =
     (if seg = [] \<or> seg = ''.'' then normalizeSegments allowAboveRoot segs res
      else if seg = ''..'' then
        (case res of
           [] \<Rightarrow> normalizeSegments allowAboveRoot segs (if allowAboveRoot then [''..''] else [])
         | lastSeg # below \<Rightarrow>
             if lastSeg \<noteq> ''..'' then normalizeSegments allowAboveRoot segs below
             else normalizeSegments allowAboveRoot segs
                    (if allowAboveRoot then ''..'' # res else res))
      else normalizeSegments allowAboveRoot segs (seg # res))"

definition normalizeString :: "string \<Rightarrow> bool \<Rightarrow> string" where
  "normalizeString p allowAboveRoot =
     join_with ''/'' (normalizeSegments allowAboveRoot (split_on slash p) [])"

definition posix_normalize :: "string \<Rightarrow> string" where
  "posix_normalize p =
     (if p = [] then ''.''
      else
        (let isAbsolute = (hd p = slash);
             trailingSeparator = (last p = slash);
             q = normalizeString p (\<not> isAbsolute)
         in if q = [] then (if isAbsolute then ''/'' else if trailingSeparator then ''./'' else ''.'')
            else
              (let q' = (if trailingSeparator then q @ ''/'' else q)
               in if isAbsolute then ''/'' @ q' else q')))"

text \<open>\<^verbatim>\<open>path.posix.join(...args)\<close>: the non-empty arguments, joined by a slash, normalised.\<close>

definition posix_join :: "string list \<Rightarrow> string" where
  "posix_join args =
     (let joined = filter (\<lambda>a. a \<noteq> []) args
      in if joined = [] then ''.'' else posix_normalize (join_with ''/'' joined))"

text \<open>
  \<^verbatim>\<open>path.posix.dirname(p)\<close>: scanning from the end, down to index 1, the trailing
  slashes and then the last segment are skipped; \<open>endIdx\<close> is the index of the slash
  found before that segment.
\<close>

definition posix_dirname :: "string \<Rightarrow> string" where
  "posix_dirname p =
     (if p = [] then ''.''
      else
        (let hasRoot = (hd p = slash);
             scanned = dropWhile (\<lambda>c. c \<noteq> slash) (dropWhile (\<lambda>c. c = slash) (rev (tl p)));
             endIdx = length scanned
         in if scanned = [] then (if hasRoot then ''/'' else ''.'')
            else if hasRoot \<and> endIdx = 1 then ''//''
            else take endIdx p))"

section \<open>Settings and the remote transport\<close>

record PathMapping =
  localPath :: string
  remotePath :: string

datatype PathMode = Note | Local

record WebDAVUploaderSettings =
  webdavUrl :: string
  username :: string
  password :: string
  rootFolder :: string
  pathMappings :: "PathMapping list"
  localSyncFolder :: string
  remoteSyncFolder :: string
  pathMode :: PathMode
  preferExistingLink :: bool

text \<open>
  \<^verbatim>\<open>requestUrl\<close> is the host's HTTP function: it answers with a response, or throws an
  error that may carry a status. It is a parameter of the model, a function of the request
  and of the state \<open>'w\<close> of the world outside the plugin.
\<close>

datatype js_error = JsError (err_status: "nat option") (err_message: string)

datatype response = Response (status: nat)

record request_params =
  rq_url :: string
  rq_method :: string
  rq_headers :: "(string \<times> string) list"
  rq_body :: "string option"

type_synonym 'w transport = "request_params \<Rightarrow> 'w \<Rightarrow> (js_error + response) \<times> 'w"

text \<open>
  The notices shown to the user, one constructor for each \<^verbatim>\<open>new Notice(...)\<close> of the
  drop handler and of \<^verbatim>\<open>uploadFile\<close>: not configured (line 59), file already in the
  cloud (193), file outside the sync folder (200), uploading (234), upload succeeded (236),
  upload failed with the error's message (254).
\<close>

datatype notice =
    NotConfigured
  | AlreadyExists string
  | OutsideSyncFolder
  | Uploading string
  | UploadOk string
  | UploadFailed string

text \<open>
  What a run can touch: the outside world, the requests sent with their outcomes (oldest
  first), the notices shown, and the texts given to \<^verbatim>\<open>editor.replaceSelection\<close>.
\<close>

record 'w host =
  world :: 'w
  calls :: "(request_params \<times> (js_error + response)) list"
  notices :: "notice list"
  editor :: "string list"

definition showNotice :: "notice \<Rightarrow> 'w host \<Rightarrow> 'w host" where
  "showNotice n h = h\<lparr>notices := notices h @ [n]\<rparr>"

definition replaceSelection :: "string \<Rightarrow> 'w host \<Rightarrow> 'w host" where
  "replaceSelection t h = h\<lparr>editor := editor h @ [t]\<rparr>"

section \<open>The WebDAV client (lines 82 to 145)\<close>

text \<open>
  \<^verbatim>\<open>request\<close>: the URL is the configured endpoint without one trailing slash, followed
  by the path. A thrown error with status 404 becomes \<^verbatim>\<open>null\<close> (here \<open>None\<close>), any
  other error is thrown again. The \<^verbatim>\<open>Authorization\<close> header, the same on every
  request, is left out of the recorded headers.
\<close>

definition requestParams ::
  "WebDAVUploaderSettings \<Rightarrow> string \<Rightarrow> string \<Rightarrow> (string \<times> string) list \<Rightarrow> string option
     \<Rightarrow> request_params" where
  "requestParams st method p headers data =
     \<lparr>rq_url = stripTrailingSlash (webdavUrl st) @ p, rq_method = method,
      rq_headers = headers, rq_body = data\<rparr>"

definition request ::
  "'w transport \<Rightarrow> WebDAVUploaderSettings \<Rightarrow> string \<Rightarrow> string \<Rightarrow> (string \<times> string) list
     \<Rightarrow> string option \<Rightarrow> 'w host \<Rightarrow> (js_error + response option) \<times> 'w host" where
  "request requestUrl st method p headers data h =
     (let params = requestParams st method p headers data;
          answer = requestUrl params (world h);
          h' = h\<lparr>world := snd answer, calls := calls h @ [(params, fst answer)]\<rparr>
      in case fst answer of
           Inr resp \<Rightarrow> (Inr (Some resp), h')
         | Inl err \<Rightarrow> if err_status err = Some 404 then (Inr None, h') else (Inl err, h'))"

definition webdavExists ::
  "'w transport \<Rightarrow> WebDAVUploaderSettings \<Rightarrow> string \<Rightarrow> 'w host \<Rightarrow> bool \<times> 'w host" where
  "webdavExists requestUrl st p h =
     (case request requestUrl st ''PROPFIND'' p [(''Depth'', ''0'')] None h of
        (Inr (Some resp), h') \<Rightarrow> (200 \<le> status resp \<and> status resp < 300, h')
      | (Inr None, h') \<Rightarrow> (False, h')
      | (Inl err, h') \<Rightarrow> (False, h'))"

text \<open>The loop of \<^verbatim>\<open>webdavCreateDirectory\<close> over the remaining parts.\<close>

fun createDirectoryLoop ::
  "'w transport \<Rightarrow> WebDAVUploaderSettings \<Rightarrow> string \<Rightarrow> string list \<Rightarrow> 'w host
     \<Rightarrow> (js_error + unit) \<times> 'w host" where
  "createDirectoryLoop requestUrl st currentPath [] h = (Inr (), h)"
| "createDirectoryLoop requestUrl st currentPath (part # parts) h =
     (let currentPath' = currentPath @ ''/'' @ part;
          probe = webdavExists requestUrl st currentPath' h
      in if \<not> fst probe then
           (case request requestUrl st ''MKCOL'' currentPath' [] None (snd probe) of
              (Inl err, h') \<Rightarrow> (Inl err, h')
            | (Inr _, h') \<Rightarrow> createDirectoryLoop requestUrl st currentPath' parts h')
         else createDirectoryLoop requestUrl st currentPath' parts (snd probe))"

definition pathParts :: "string \<Rightarrow> string list" where
  "pathParts p = filter (\<lambda>s. s \<noteq> []) (split_on slash p)"

definition webdavCreateDirectory ::
  "'w transport \<Rightarrow> WebDAVUploaderSettings \<Rightarrow> string \<Rightarrow> 'w host \<Rightarrow> (js_error + unit) \<times> 'w host" where
  "webdavCreateDirectory requestUrl st p h = createDirectoryLoop requestUrl st [] (pathParts p) h"

definition webdavPut ::
  "'w transport \<Rightarrow> WebDAVUploaderSettings \<Rightarrow> string \<Rightarrow> string \<Rightarrow> 'w host
     \<Rightarrow> (js_error + unit) \<times> 'w host" where
  "webdavPut requestUrl st p data h =
     (case request requestUrl st ''PUT'' p [(''Content-Type'', ''application/octet-stream'')]
             (Some data) h of
        (Inl err, h') \<Rightarrow> (Inl err, h')
      | (Inr _, h') \<Rightarrow> (Inr (), h'))"

section \<open>Path resolution (\<^verbatim>\<open>calculateRemotePath\<close>, lines 259 to 310)\<close>

text \<open>
  A dropped file: its name, its local path (empty when the host gives none) and what
  \<^verbatim>\<open>arrayBuffer()\<close> yields. The active note: its parent folder's path, if it has a
  parent. The view: its file, if any.
\<close>

record dropped_file =
  file_name :: string
  file_path :: string
  file_arrayBuffer :: "js_error + string"

record tfile =
  parent_path :: "string option"

record markdown_view =
  view_file :: "tfile option"

text \<open>The test \<^verbatim>\<open>!bestMatch || mapping.localPath.length > bestMatch.localPath.length\<close>.\<close>

definition replacesBest :: "PathMapping \<Rightarrow> PathMapping option \<Rightarrow> bool" where
  "replacesBest mapping bestMatch =
     (case bestMatch of None \<Rightarrow> True
      | Some b \<Rightarrow> length (localPath mapping) > length (localPath b))"

text \<open>The loop of lines 268 to 276 (local mode).\<close>

fun bestMatchLocal :: "string \<Rightarrow> PathMapping list \<Rightarrow> PathMapping option \<Rightarrow> PathMapping option" where
  "bestMatchLocal fileDir [] bestMatch = bestMatch"
| "bestMatchLocal fileDir (mapping # rest) bestMatch =
     (let normalizedMapping = replaceBackslashes (localPath mapping)
      in if js_includes fileDir normalizedMapping then
           (if replacesBest mapping bestMatch then bestMatchLocal fileDir rest (Some mapping)
            else bestMatchLocal fileDir rest bestMatch)
         else bestMatchLocal fileDir rest bestMatch)"

text \<open>The loop of lines 288 to 294 (note mode).\<close>

fun bestMatchNote :: "string \<Rightarrow> PathMapping list \<Rightarrow> PathMapping option \<Rightarrow> PathMapping option" where
  "bestMatchNote noteParentPath [] bestMatch = bestMatch"
| "bestMatchNote noteParentPath (mapping # rest) bestMatch =
     (if startsWith noteParentPath (localPath mapping) then
        (if replacesBest mapping bestMatch then bestMatchNote noteParentPath rest (Some mapping)
         else bestMatchNote noteParentPath rest bestMatch)
      else bestMatchNote noteParentPath rest bestMatch)"

text \<open>\<^verbatim>\<open>if (!p.startsWith('/')) p = '/' + p\<close>\<close>

definition ensureLeadingSlash :: "string \<Rightarrow> string" where
  "ensureLeadingSlash p = (if \<not> startsWith p ''/'' then ''/'' @ p else p)"

text \<open>\<^verbatim>\<open>activeFile.parent ? activeFile.parent.path : '/'\<close>\<close>

definition noteParentPathOf :: "tfile \<Rightarrow> string" where
  "noteParentPathOf activeFile = (case parent_path activeFile of Some p \<Rightarrow> p | None \<Rightarrow> ''/'')"

text \<open>
  \<^verbatim>\<open>path.dirname\<close> is the platform's (POSIX or Windows), so it is the parameter
  \<open>dirname\<close>; \<^verbatim>\<open>path.posix\<close> is the same on every platform.
\<close>

definition calculateRemotePath ::
  "(string \<Rightarrow> string) \<Rightarrow> WebDAVUploaderSettings \<Rightarrow> dropped_file \<Rightarrow> tfile \<Rightarrow> string \<Rightarrow> string" where
  "calculateRemotePath dirname st file activeFile filePath =
     (let remoteFolder =
            (if pathMode st = Local \<and> filePath \<noteq> [] then
               (let fileDir = replaceBackslashes (dirname filePath)
                in case bestMatchLocal fileDir (pathMappings st) None of
                     Some bestMatch \<Rightarrow> remotePath bestMatch
                   | None \<Rightarrow> rootFolder st)
             else
               (let noteParentPath = noteParentPathOf activeFile
                in case bestMatchNote noteParentPath (pathMappings st) None of
                     Some bestMatch \<Rightarrow>
                       (let relativePath = drop (length (localPath bestMatch)) noteParentPath;
                            cleanRelative = replaceBackslashes (stripLeadingSep relativePath);
                            cleanRemote = stripTrailingSlash (remotePath bestMatch)
                        in cleanRemote @ ''/'' @ cleanRelative)
                   | None \<Rightarrow> posix_join [rootFolder st, noteParentPath]))
      in posix_join [ensureLeadingSlash remoteFolder, file_name file])"

section \<open>Handling one dropped file (\<^verbatim>\<open>uploadFile\<close>, lines 151 to 256)\<close>

text \<open>The containment test of lines 169 to 176.\<close>

definition insideSyncFolder :: "string \<Rightarrow> string \<Rightarrow> bool" where
  "insideSyncFolder syncFolder filePath =
     (let normalizedFilePath = replaceBackslashes filePath;
          normalizedLocalSync = toLowerCase (replaceBackslashes (stripTrailingSeps syncFolder));
          lowerFilePath = toLowerCase normalizedFilePath
      in startsWith lowerFilePath normalizedLocalSync)"

text \<open>The remote path of a file inside the sync folder, lines 184 to 189.\<close>

definition syncRemotePath :: "WebDAVUploaderSettings \<Rightarrow> string \<Rightarrow> string" where
  "syncRemotePath st filePath =
     (let normalizedFilePath = replaceBackslashes filePath;
          relativePath =
            stripLeadingSep
              (drop (length (stripTrailingSeps (localSyncFolder st))) normalizedFilePath);
          remoteBase = stripTrailingSlash (remoteSyncFolder st)
      in ensureLeadingSlash (posix_join [remoteBase, relativePath]))"

text \<open>The three variables that lines 160 to 211 set.\<close>

record resolution =
  remoteFilePath :: string
  shouldUpload :: bool
  isLocalLink :: bool

definition resolveDrop ::
  "'w transport \<Rightarrow> (string \<Rightarrow> string) \<Rightarrow> WebDAVUploaderSettings \<Rightarrow> dropped_file \<Rightarrow> tfile
     \<Rightarrow> 'w host \<Rightarrow> resolution \<times> 'w host" where
  "resolveDrop requestUrl dirname st file activeFile h =
     (let filePath = file_path file
      in if pathMode st = Local then
           (if localSyncFolder st \<noteq> [] \<and> remoteSyncFolder st \<noteq> [] \<and> filePath \<noteq> [] then
              (if insideSyncFolder (localSyncFolder st) filePath then
                 (let p = syncRemotePath st filePath
                  in if preferExistingLink st then
                       (let probe = webdavExists requestUrl st p h
                        in if fst probe then
                             (\<lparr>remoteFilePath = p, shouldUpload = False, isLocalLink = False\<rparr>,
                              showNotice (AlreadyExists (file_name file)) (snd probe))
                           else
                             (\<lparr>remoteFilePath = p, shouldUpload = True, isLocalLink = False\<rparr>,
                              snd probe))
                     else (\<lparr>remoteFilePath = p, shouldUpload = True, isLocalLink = False\<rparr>, h))
               else
                 (\<lparr>remoteFilePath = [], shouldUpload = False, isLocalLink = True\<rparr>,
                  showNotice OutsideSyncFolder h))
            else
              (\<lparr>remoteFilePath = calculateRemotePath dirname st file activeFile filePath,
                shouldUpload = True, isLocalLink = False\<rparr>, h))
         else
           (\<lparr>remoteFilePath = calculateRemotePath dirname st file activeFile filePath,
             shouldUpload = True, isLocalLink = False\<rparr>, h))"

text \<open>Lines 228 to 231: create the remote folder unless the probe finds it.\<close>

definition ensureRemoteFolder ::
  "'w transport \<Rightarrow> WebDAVUploaderSettings \<Rightarrow> string \<Rightarrow> 'w host \<Rightarrow> (js_error + unit) \<times> 'w host" where
  "ensureRemoteFolder requestUrl st p h =
     (let remoteFolder = posix_dirname p;
          probe = webdavExists requestUrl st remoteFolder h
      in if \<not> fst probe then webdavCreateDirectory requestUrl st remoteFolder (snd probe)
         else (Inr (), snd probe))"

text \<open>Lines 226 to 237: ensure the remote folder, read the file, upload it.\<close>

definition uploadStep ::
  "'w transport \<Rightarrow> WebDAVUploaderSettings \<Rightarrow> dropped_file \<Rightarrow> resolution \<Rightarrow> 'w host
     \<Rightarrow> (js_error + unit) \<times> 'w host" where
  "uploadStep requestUrl st file r h =
     (if shouldUpload r \<and> remoteFilePath r \<noteq> [] then
        (case ensureRemoteFolder requestUrl st (remoteFilePath r) h of
           (Inl err, h1) \<Rightarrow> (Inl err, h1)
         | (Inr _, h1) \<Rightarrow>
             (case file_arrayBuffer file of
                Inl err \<Rightarrow> (Inl err, h1)
              | Inr fileBuffer \<Rightarrow>
                  (case webdavPut requestUrl st (remoteFilePath r) fileBuffer
                          (showNotice (Uploading (file_name file)) h1) of
                     (Inl err, h2) \<Rightarrow> (Inl err, h2)
                   | (Inr _, h2) \<Rightarrow> (Inr (), showNotice (UploadOk (file_name file)) h2))))
      else (Inr (), h))"

definition newline :: string where
  "newline = [CHR 0x0A]"

text \<open>The text of line 221.\<close>

definition localLinkText :: "dropped_file \<Rightarrow> string" where
  "localLinkText file =
     ''['' @ file_name file @ ''](file:///'' @ encodeURI (replaceBackslashes (file_path file))
       @ '')'' @ newline"

text \<open>The text of lines 241 to 249.\<close>

definition remoteLinkText :: "WebDAVUploaderSettings \<Rightarrow> dropped_file \<Rightarrow> string \<Rightarrow> string" where
  "remoteLinkText st file p =
     (let baseUrl = stripTrailingSlash (webdavUrl st);
          cleanRemoteFilePath = ensureLeadingSlash p;
          encodedPath = join_with ''/'' (map encodeURIComponent (split_on slash cleanRemoteFilePath));
          linkUrl = baseUrl @ encodedPath;
          linkText = ''['' @ file_name file @ '']('' @ linkUrl @ '')''
      in linkText @ newline)"

text \<open>The body of the \<^verbatim>\<open>try\<close> block: \<open>Inl\<close> is an error thrown inside it.\<close>

definition uploadFileTry ::
  "'w transport \<Rightarrow> (string \<Rightarrow> string) \<Rightarrow> WebDAVUploaderSettings \<Rightarrow> dropped_file \<Rightarrow> markdown_view
     \<Rightarrow> 'w host \<Rightarrow> (js_error + unit) \<times> 'w host" where
  "uploadFileTry requestUrl dirname st file view h =
     (case view_file view of
        None \<Rightarrow> (Inr (), h)
      | Some activeFile \<Rightarrow>
          (let resolved = resolveDrop requestUrl dirname st file activeFile h;
               r = fst resolved
           in if isLocalLink r then (Inr (), replaceSelection (localLinkText file) (snd resolved))
              else
                (case uploadStep requestUrl st file r (snd resolved) of
                   (Inl err, h') \<Rightarrow> (Inl err, h')
                 | (Inr _, h') \<Rightarrow>
                     (Inr (),
                      if remoteFilePath r \<noteq> []
                      then replaceSelection (remoteLinkText st file (remoteFilePath r)) h'
                      else h'))))"

text \<open>\<^verbatim>\<open>uploadFile\<close>: the \<^verbatim>\<open>catch\<close> turns a thrown error into a notice.\<close>

definition uploadFile ::
  "'w transport \<Rightarrow> (string \<Rightarrow> string) \<Rightarrow> WebDAVUploaderSettings \<Rightarrow> dropped_file \<Rightarrow> markdown_view
     \<Rightarrow> 'w host \<Rightarrow> 'w host" where
  "uploadFile requestUrl dirname st file view h =
     (case uploadFileTry requestUrl dirname st file view h of
        (Inl err, h') \<Rightarrow> showNotice (UploadFailed (err_message err)) h'
      | (Inr _, h') \<Rightarrow> h')"

section \<open>The drop handler (lines 43 to 74)\<close>

text \<open>The \<^verbatim>\<open>for\<close> loop of lines 69 to 72.\<close>

fun uploadFiles ::
  "'w transport \<Rightarrow> (string \<Rightarrow> string) \<Rightarrow> WebDAVUploaderSettings \<Rightarrow> markdown_view
     \<Rightarrow> dropped_file list \<Rightarrow> 'w host \<Rightarrow> 'w host" where
  "uploadFiles requestUrl dirname st view [] h = h"
| "uploadFiles requestUrl dirname st view (file # files) h =
     uploadFiles requestUrl dirname st view files (uploadFile requestUrl dirname st file view h)"

definition onDrop ::
  "'w transport \<Rightarrow> (string \<Rightarrow> string) \<Rightarrow> WebDAVUploaderSettings \<Rightarrow> markdown_view option
     \<Rightarrow> dropped_file list \<Rightarrow> 'w host \<Rightarrow> 'w host" where
  "onDrop requestUrl dirname st activeView files h =
     (case activeView of
        None \<Rightarrow> h
      | Some view \<Rightarrow>
          if files \<noteq> [] then
            (if webdavUrl st = [] \<or> username st = [] \<or> password st = []
             then showNotice NotConfigured h
             else uploadFiles requestUrl dirname st view files h)
          else h)"

section \<open>A remote store for the directory claims\<close>

text \<open>
  The server is not part of the plugin. This is the plainest WebDAV server there is, kept
  to its collections: the state is the set of URLs that are collections. \<^verbatim>\<open>PROPFIND\<close>
  answers 207 for a collection and 404 otherwise; \<^verbatim>\<open>MKCOL\<close> answers 405 for an existing
  collection, 409 when the parent is not a collection, and otherwise creates it (201);
  \<^verbatim>\<open>PUT\<close> answers 201 under an existing collection and 409 otherwise. Every status
  from 400 on is thrown, as \<^verbatim>\<open>requestUrl\<close> does.
\<close>

type_synonym dav_store = "string set"

definition parentUrl :: "string \<Rightarrow> string" where
  "parentUrl u = rev (tl (dropWhile (\<lambda>c. c \<noteq> slash) (rev u)))"

definition davRequestUrl :: "dav_store transport" where
  "davRequestUrl params s =
     (if rq_method params = ''PROPFIND'' then
        (if rq_url params \<in> s then (Inr (Response 207), s)
         else (Inl (JsError (Some 404) ''Not Found''), s))
      else if rq_method params = ''MKCOL'' then
        (if rq_url params \<in> s then (Inl (JsError (Some 405) ''Method Not Allowed''), s)
         else if parentUrl (rq_url params) \<notin> s then (Inl (JsError (Some 409) ''Conflict''), s)
         else (Inr (Response 201), insert (rq_url params) s))
      else if rq_method params = ''PUT'' then
        (if parentUrl (rq_url params) \<in> s then (Inr (Response 201), s)
         else (Inl (JsError (Some 409) ''Conflict''), s))
      else (Inl (JsError (Some 405) ''Method Not Allowed''), s))"

section \<open>Auxiliary notions for the statements\<close>

subsection \<open>Predicates and projections used in the statements\<close>

text \<open>A string without two slashes in a row.\<close>

fun noDoubleSlash :: "string \<Rightarrow> bool" where
  "noDoubleSlash (a # b # cs) = (\<not> (a = slash \<and> b = slash) \<and> noDoubleSlash (b # cs))"
| "noDoubleSlash cs = True"

text \<open>Path segments as \<^verbatim>\<open>normalizeString\<close> keeps them: not empty, without a slash.\<close>

definition goodSegs :: "string list \<Rightarrow> bool" where
  "goodSegs segs = (\<forall>s \<in> set segs. s \<noteq> [] \<and> slash \<notin> set s)"


text \<open>The requests of a run that are uploads.\<close>

definition putCalls :: "'w host \<Rightarrow> (request_params \<times> (js_error + response)) list" where
  "putCalls h = filter (\<lambda>c. rq_method (fst c) = ''PUT'') (calls h)"

text \<open>The request that \<^verbatim>\<open>webdavExists\<close> sends and the request that \<^verbatim>\<open>webdavPut\<close> sends.\<close>

definition probeParams :: "WebDAVUploaderSettings \<Rightarrow> string \<Rightarrow> request_params" where
  "probeParams st p = requestParams st ''PROPFIND'' p [(''Depth'', ''0'')] None"




subsection \<open>Directory creation as the specification describes it\<close>

text \<open>The paths that the loop of \<^verbatim>\<open>webdavCreateDirectory\<close> visits, from root to leaf.\<close>

fun prefixPaths :: "string \<Rightarrow> string list \<Rightarrow> string list" where
  "prefixPaths currentPath [] = []"
| "prefixPaths currentPath (part # parts) =
     (currentPath @ ''/'' @ part) # prefixPaths (currentPath @ ''/'' @ part) parts"


subsection \<open>Example settings, notes and files\<close>

text \<open>
  Two mappings, the local path of the first a proper prefix of the second's; a third
  whose local path is written with a backslash.
\<close>

definition notesMapping :: PathMapping where
  "notesMapping = \<lparr>localPath = ''notes'', remotePath = ''/n''\<rparr>"

definition notesSubMapping :: PathMapping where
  "notesSubMapping = \<lparr>localPath = ''notes/sub'', remotePath = ''/s''\<rparr>"


text \<open>
  Note mode with the two mappings; local mode with the sync folder of the specification's
  example; a Windows user's settings, the root folder written with a backslash.
\<close>

definition exampleSettings :: WebDAVUploaderSettings where
  "exampleSettings =
     \<lparr>webdavUrl = ''https://dav.example/base/'', username = ''me'', password = ''secret'',
      rootFolder = ''/docs'', pathMappings = [notesMapping, notesSubMapping],
      localSyncFolder = ''c:/users/me/sync'', remoteSyncFolder = ''/remote/'',
      pathMode = Note, preferExistingLink = True\<rparr>"

definition syncSettings :: WebDAVUploaderSettings where
  "syncSettings =
     \<lparr>webdavUrl = ''https://dav.example/base/'', username = ''me'', password = ''secret'',
      rootFolder = ''/docs'', pathMappings = [],
      localSyncFolder = ''c:/users/me/sync'', remoteSyncFolder = ''/remote/'',
      pathMode = Local, preferExistingLink = True\<rparr>"


text \<open>A note in the folder \<^verbatim>\<open>notes/sub\<close>, open in the active view.\<close>

definition noteInSub :: tfile where
  "noteInSub = \<lparr>parent_path = Some ''notes/sub''\<rparr>"

definition openNote :: markdown_view where
  "openNote = \<lparr>view_file = Some noteInSub\<rparr>"

text \<open>
  Pasted images, to which the host gives a name and bytes but no local path; a file under
  the sync folder, in another letter case; a file outside it; a file dropped from the
  Windows file manager.
\<close>

definition pastedFile :: dropped_file where
  "pastedFile = \<lparr>file_name = ''a.png'', file_path = [], file_arrayBuffer = Inr ''PNG''\<rparr>"

definition bigFile :: dropped_file where
  "bigFile = \<lparr>file_name = ''big.png'', file_path = [], file_arrayBuffer = Inr ''PNGDATA''\<rparr>"

definition insideFile :: dropped_file where
  "insideFile =
     \<lparr>file_name = ''a.png'', file_path = ''C:/Users/Me/Sync/a.png'', file_arrayBuffer = Inr ''PNG''\<rparr>"

definition outsideFile :: dropped_file where
  "outsideFile =
     \<lparr>file_name = ''b c.png'', file_path = ''C:/Users/Me/Desktop/b c.png'',
      file_arrayBuffer = Inr ''PNG''\<rparr>"

text \<open>A file in a folder beside the sync folder, whose name begins with the sync folder's.\<close>

definition siblingFile :: dropped_file where
  "siblingFile =
     \<lparr>file_name = ''secret.png'', file_path = ''C:/Users/Me/SyncBackup/secret.png'',
      file_arrayBuffer = Inr ''PNG''\<rparr>"


subsection \<open>Example servers\<close>

text \<open>
  Every request gets the same answer: a response below status 400, a thrown error from
  400 on; or no answer at all.
\<close>

definition alwaysStatus :: "nat \<Rightarrow> unit transport" where
  "alwaysStatus n params w =
     (if n < 400 then Inr (Response n) else Inl (JsError (Some n) ''Request failed''), w)"

definition offline :: "unit transport" where
  "offline params w = (Inl (JsError None ''net::ERR_CONNECTION_REFUSED''), w)"

text \<open>A server that has every path asked for, and one that has none but accepts everything.\<close>

definition hasEverything :: "unit transport" where
  "hasEverything params w =
     (if rq_method params = ''PROPFIND'' then Inr (Response 207) else Inr (Response 204), w)"

definition hasNothing :: "unit transport" where
  "hasNothing params w =
     (if rq_method params = ''PROPFIND'' then Inl (JsError (Some 404) ''Not Found'')
      else Inr (Response 201), w)"


text \<open>A server that has nothing yet and refuses uploads of more than three bytes.\<close>

definition payloadLimit :: "unit transport" where
  "payloadLimit params w =
     (if rq_method params = ''PROPFIND'' then Inl (JsError (Some 404) ''Not Found'')
      else if rq_method params = ''PUT'' \<and> 3 < length (case rq_body params of None \<Rightarrow> [] | Some b \<Rightarrow> b)
        then Inl (JsError (Some 413) ''Payload Too Large'')
      else Inr (Response 201), w)"

text \<open>
  A server that has nothing yet and answers 404 to uploads of more than three bytes, as a
  server does whose upload path is wrong for large files.
\<close>

definition bigUploadsNotFound :: "unit transport" where
  "bigUploadsNotFound params w =
     (if rq_method params = ''PROPFIND'' then Inl (JsError (Some 404) ''Not Found'')
      else if rq_method params = ''PUT'' \<and> 3 < length (case rq_body params of None \<Rightarrow> [] | Some b \<Rightarrow> b)
        then Inl (JsError (Some 404) ''Not Found'')
      else Inr (Response 201), w)"


text \<open>
  A run starts with nothing sent, shown or inserted; the reference store starts with its
  root collection only.
\<close>

definition emptyHost :: "unit host" where
  "emptyHost = \<lparr>world = (), calls = [], notices = [], editor = []\<rparr>"


section \<open>Verified properties\<close>

subsection \<open>The best-match loops\<close>

lemma bestMatchNote_source:
  "bestMatchNote p ms acc = Some m \<Longrightarrow>
     acc = Some m \<or> (m \<in> set ms \<and> startsWith p (localPath m))"
  by (induction ms arbitrary: acc) (auto split: if_splits)

lemma bestMatchNote_longest:
  "bestMatchNote p ms acc = Some m \<Longrightarrow>
     (\<forall>b. acc = Some b \<longrightarrow> length (localPath b) \<le> length (localPath m)) \<and>
     (\<forall>m' \<in> set ms. startsWith p (localPath m') \<longrightarrow> length (localPath m') \<le> length (localPath m))"
proof (induction ms arbitrary: acc)
  case Nil
  then show ?case by simp
next
  case (Cons a ms)
  show ?case
  proof (cases "startsWith p (localPath a)")
    case False
    with Cons.prems have "bestMatchNote p ms acc = Some m" by simp
    from Cons.IH [OF this] False show ?thesis by auto
  next
    case True
    show ?thesis
    proof (cases "replacesBest a acc")
      case yes: True
      with True Cons.prems have "bestMatchNote p ms (Some a) = Some m" by simp
      from Cons.IH [OF this] yes show ?thesis
        by (auto simp: replacesBest_def split: option.splits)
    next
      case no: False
      with True Cons.prems have "bestMatchNote p ms acc = Some m" by simp
      from Cons.IH [OF this] no show ?thesis
        by (auto simp: replacesBest_def split: option.splits)
    qed
  qed
qed

lemma bestMatchNote_None:
  "bestMatchNote p ms acc = None \<longleftrightarrow>
     acc = None \<and> (\<forall>m \<in> set ms. \<not> startsWith p (localPath m))"
  by (induction ms arbitrary: acc) (auto simp: replacesBest_def split: option.splits)

lemma bestMatchLocal_source:
  "bestMatchLocal d ms acc = Some m \<Longrightarrow>
     acc = Some m \<or> (m \<in> set ms \<and> js_includes d (replaceBackslashes (localPath m)))"
  by (induction ms arbitrary: acc) (auto simp: Let_def split: if_splits)

lemma bestMatchLocal_longest:
  "bestMatchLocal d ms acc = Some m \<Longrightarrow>
     (\<forall>b. acc = Some b \<longrightarrow> length (localPath b) \<le> length (localPath m)) \<and>
     (\<forall>m' \<in> set ms. js_includes d (replaceBackslashes (localPath m'))
        \<longrightarrow> length (localPath m') \<le> length (localPath m))"
proof (induction ms arbitrary: acc)
  case Nil
  then show ?case by simp
next
  case (Cons a ms)
  show ?case
  proof (cases "js_includes d (replaceBackslashes (localPath a))")
    case False
    with Cons.prems have "bestMatchLocal d ms acc = Some m" by simp
    from Cons.IH [OF this] False show ?thesis by auto
  next
    case True
    show ?thesis
    proof (cases "replacesBest a acc")
      case yes: True
      with True Cons.prems have "bestMatchLocal d ms (Some a) = Some m" by simp
      from Cons.IH [OF this] yes show ?thesis
        by (auto simp: replacesBest_def split: option.splits)
    next
      case no: False
      with True Cons.prems have "bestMatchLocal d ms acc = Some m" by simp
      from Cons.IH [OF this] no show ?thesis
        by (auto simp: replacesBest_def split: option.splits)
    qed
  qed
qed

lemma bestMatchLocal_None:
  "bestMatchLocal d ms acc = None \<longleftrightarrow>
     acc = None \<and> (\<forall>m \<in> set ms. \<not> js_includes d (replaceBackslashes (localPath m)))"
  by (induction ms arbitrary: acc) (auto simp: replacesBest_def Let_def split: option.splits)

text \<open>
  Claim C2. In both loops the mapping selected is one of the configured mappings, it
  matches, and no matching mapping has a longer \<open>localPath\<close>; a mapping is selected
  whenever one matches. So of two matching mappings, one a proper prefix of the other, the
  longer one is selected, in whatever order they are configured.
\<close>

theorem longest_matching_localPath_wins:
  "(bestMatchNote p ms None = Some m \<longrightarrow>
      m \<in> set ms \<and> startsWith p (localPath m) \<and>
      (\<forall>m' \<in> set ms. startsWith p (localPath m') \<longrightarrow>
         length (localPath m') \<le> length (localPath m))) \<and>
   ((\<exists>m' \<in> set ms. startsWith p (localPath m')) \<longrightarrow> bestMatchNote p ms None \<noteq> None) \<and>
   (bestMatchLocal d ms None = Some m \<longrightarrow>
      m \<in> set ms \<and> js_includes d (replaceBackslashes (localPath m)) \<and>
      (\<forall>m' \<in> set ms. js_includes d (replaceBackslashes (localPath m')) \<longrightarrow>
         length (localPath m') \<le> length (localPath m))) \<and>
   ((\<exists>m' \<in> set ms. js_includes d (replaceBackslashes (localPath m'))) \<longrightarrow>
      bestMatchLocal d ms None \<noteq> None)"
  using bestMatchNote_source [of p ms None m] bestMatchNote_longest [of p ms None m]
    bestMatchNote_None [of p ms None]
    bestMatchLocal_source [of d ms None m] bestMatchLocal_longest [of d ms None m]
    bestMatchLocal_None [of d ms None]
  by blast

theorem longest_matching_localPath_wins_witness:
  "bestMatchNote ''notes/sub/deep'' [notesMapping, notesSubMapping] None = Some notesSubMapping \<and>
   bestMatchNote ''notes/sub/deep'' [notesSubMapping, notesMapping] None = Some notesSubMapping \<and>
   bestMatchLocal ''C:/vault/notes/sub'' [notesMapping, notesSubMapping] None = Some notesSubMapping \<and>
   startsWith ''notes/sub/deep'' (localPath notesMapping) \<and>
   js_includes ''C:/vault/notes/sub'' (replaceBackslashes (localPath notesMapping)) \<and>
   length (localPath notesMapping) \<le> length (localPath notesSubMapping)"
proof -
  have sel: "bestMatchNote ''notes/sub/deep'' [notesMapping, notesSubMapping] None = Some notesSubMapping"
    "bestMatchNote ''notes/sub/deep'' [notesSubMapping, notesMapping] None = Some notesSubMapping"
    "bestMatchLocal ''C:/vault/notes/sub'' [notesMapping, notesSubMapping] None = Some notesSubMapping"
    by (simp_all add: notesMapping_def notesSubMapping_def startsWith_def js_includes_def
          replacesBest_def replaceBackslashes_def backslash_def slash_def sublist_code)
  have m: "startsWith ''notes/sub/deep'' (localPath notesMapping)"
    "js_includes ''C:/vault/notes/sub'' (replaceBackslashes (localPath notesMapping))"
    by (simp_all add: notesMapping_def startsWith_def js_includes_def replaceBackslashes_def
          backslash_def slash_def sublist_code)
  from longest_matching_localPath_wins
         [of "''notes/sub/deep''" "[notesMapping, notesSubMapping]" notesSubMapping
             "''C:/vault/notes/sub''"]
       sel m
  show ?thesis by simp
qed

subsection \<open>The existence probe\<close>

lemma request_effect:
  "snd (request tr st m p hs d h) =
     h\<lparr>world := snd (tr (requestParams st m p hs d) (world h)),
       calls := calls h @ [(requestParams st m p hs d, fst (tr (requestParams st m p hs d) (world h)))]\<rparr>"
  by (simp add: request_def Let_def split: sum.splits)

lemma request_result:
  "fst (request tr st m p hs d h) =
     (case fst (tr (requestParams st m p hs d) (world h)) of
        Inr resp \<Rightarrow> Inr (Some resp)
      | Inl err \<Rightarrow> if err_status err = Some 404 then Inr None else Inl err)"
  by (simp add: request_def Let_def split: sum.splits)

lemma webdavExists_effect:
  "snd (webdavExists tr st p h) = snd (request tr st ''PROPFIND'' p [(''Depth'', ''0'')] None h)"
  by (simp add: webdavExists_def split: prod.splits sum.splits option.splits)

lemma webdavExists_result:
  "fst (webdavExists tr st p h) =
     (case fst (tr (requestParams st ''PROPFIND'' p [(''Depth'', ''0'')] None) (world h)) of
        Inr resp \<Rightarrow> 200 \<le> status resp \<and> status resp < 300
      | Inl err \<Rightarrow> False)"
  using request_result [of tr st "''PROPFIND''" p "[(''Depth'', ''0'')]" None h]
  by (auto simp: webdavExists_def split: prod.splits sum.splits option.splits if_splits)

text \<open>
  Claim C8. \<^verbatim>\<open>webdavExists\<close> always returns a boolean and never an error: the
  answer is true exactly when the transport returned a response with a status from 200 to
  299, and false for every thrown error, whether its status is 404, another one, or none.
  It sends exactly one request and touches neither the notices nor the editor.
\<close>

theorem webdavExists_swallows_errors:
  "fst (webdavExists tr st p h) =
     (case fst (tr (requestParams st ''PROPFIND'' p [(''Depth'', ''0'')] None) (world h)) of
        Inr resp \<Rightarrow> 200 \<le> status resp \<and> status resp < 300
      | Inl err \<Rightarrow> False) \<and>
   calls (snd (webdavExists tr st p h)) =
     calls h @ [(requestParams st ''PROPFIND'' p [(''Depth'', ''0'')] None,
                 fst (tr (requestParams st ''PROPFIND'' p [(''Depth'', ''0'')] None) (world h)))] \<and>
   notices (snd (webdavExists tr st p h)) = notices h \<and>
   editor (snd (webdavExists tr st p h)) = editor h"
  by (simp add: webdavExists_result webdavExists_effect request_effect)

theorem webdavExists_swallows_errors_witness:
  "fst (webdavExists (alwaysStatus 404) exampleSettings ''/a'' emptyHost) = False \<and>
   fst (webdavExists (alwaysStatus 500) exampleSettings ''/a'' emptyHost) = False \<and>
   fst (webdavExists offline exampleSettings ''/a'' emptyHost) = False \<and>
   fst (webdavExists (alwaysStatus 302) exampleSettings ''/a'' emptyHost) = False \<and>
   fst (webdavExists (alwaysStatus 207) exampleSettings ''/a'' emptyHost) = True"
  using webdavExists_swallows_errors [of "alwaysStatus 404" exampleSettings "''/a''" emptyHost]
    webdavExists_swallows_errors [of "alwaysStatus 500" exampleSettings "''/a''" emptyHost]
    webdavExists_swallows_errors [of offline exampleSettings "''/a''" emptyHost]
    webdavExists_swallows_errors [of "alwaysStatus 302" exampleSettings "''/a''" emptyHost]
    webdavExists_swallows_errors [of "alwaysStatus 207" exampleSettings "''/a''" emptyHost]
  by (simp add: alwaysStatus_def offline_def)

subsection \<open>Matching in the two modes\<close>



subsection \<open>A dropped file without a local path\<close>

text \<open>
  Claim C10. In local mode, a file whose path is empty is never given a local link, also
  when a sync folder is configured: no request is made during resolution, the file is to
  be uploaded, and its remote path is the one \<^verbatim>\<open>calculateRemotePath\<close> computes in
  note mode, from the note's parent folder through the mappings or the root folder.
\<close>

theorem empty_path_takes_note_branch:
  assumes "pathMode st = Local" "file_path file = []"
  shows "resolveDrop tr dirname st file activeFile h =
           (\<lparr>remoteFilePath = calculateRemotePath dirname st file activeFile [],
             shouldUpload = True, isLocalLink = False\<rparr>, h) \<and>
         calculateRemotePath dirname st file activeFile [] =
           calculateRemotePath dirname (st\<lparr>pathMode := Note\<rparr>) file activeFile [] \<and>
         calculateRemotePath dirname st file activeFile [] =
           posix_join
             [ensureLeadingSlash
                (case bestMatchNote (noteParentPathOf activeFile) (pathMappings st) None of
                   Some bestMatch \<Rightarrow>
                     stripTrailingSlash (remotePath bestMatch) @ ''/'' @
                     replaceBackslashes
                       (stripLeadingSep
                          (drop (length (localPath bestMatch)) (noteParentPathOf activeFile)))
                 | None \<Rightarrow> posix_join [rootFolder st, noteParentPathOf activeFile]),
              file_name file]"
  using assms by (simp add: resolveDrop_def calculateRemotePath_def Let_def split: option.splits)

theorem empty_path_takes_note_branch_witness:
  "pathMode (exampleSettings\<lparr>pathMode := Local\<rparr>) = Local \<and> file_path pastedFile = [] \<and>
   localSyncFolder (exampleSettings\<lparr>pathMode := Local\<rparr>) = ''c:/users/me/sync'' \<and>
   resolveDrop offline posix_dirname (exampleSettings\<lparr>pathMode := Local\<rparr>) pastedFile noteInSub
       emptyHost =
     (\<lparr>remoteFilePath = ''/s/a.png'', shouldUpload = True, isLocalLink = False\<rparr>, emptyHost)"
proof -
  have hyp: "pathMode (exampleSettings\<lparr>pathMode := Local\<rparr>) = Local" "file_path pastedFile = []"
    by (simp_all add: pastedFile_def)
  have ev: "calculateRemotePath posix_dirname (exampleSettings\<lparr>pathMode := Note\<rparr>) pastedFile
              noteInSub [] = ''/s/a.png''"
    by code_simp
  from empty_path_takes_note_branch [OF hyp, of offline posix_dirname noteInSub emptyHost] ev hyp
  show ?thesis by (simp add: exampleSettings_def)
qed

subsection \<open>Normalised paths\<close>


lemma noDoubleSlash_Cons:
  "noDoubleSlash (c # xs) \<longleftrightarrow>
     noDoubleSlash xs \<and> (xs \<noteq> [] \<longrightarrow> \<not> (c = slash \<and> hd xs = slash))"
  by (cases xs) auto

lemma noDoubleSlash_append:
  "noDoubleSlash (xs @ ys) \<longleftrightarrow>
     noDoubleSlash xs \<and> noDoubleSlash ys \<and>
     (xs \<noteq> [] \<and> ys \<noteq> [] \<longrightarrow> \<not> (last xs = slash \<and> hd ys = slash))"
proof (induction xs)
  case Nil
  then show ?case by simp
next
  case (Cons c xs)
  then show ?case
    unfolding append_Cons noDoubleSlash_Cons [of c "xs @ ys"] noDoubleSlash_Cons [of c xs]
    by (cases xs) auto
qed

lemma noDoubleSlash_free: "slash \<notin> set s \<Longrightarrow> noDoubleSlash s"
  by (induction s rule: noDoubleSlash.induct) auto

lemma free_hd_last: "s \<noteq> [] \<Longrightarrow> slash \<notin> set s \<Longrightarrow> hd s \<noteq> slash \<and> last s \<noteq> slash"
  using hd_in_set [of s] last_in_set [of s] by metis

lemma join_good:
  "goodSegs segs \<Longrightarrow>
     noDoubleSlash (join_with ''/'' segs) \<and>
     (segs \<noteq> [] \<longrightarrow> join_with ''/'' segs \<noteq> [] \<and> hd (join_with ''/'' segs) \<noteq> slash
        \<and> last (join_with ''/'' segs) \<noteq> slash)"
proof (induction segs rule: induct_list012)
  case 1
  then show ?case by simp
next
  case (2 s)
  then show ?case using free_hd_last [of s] by (simp add: goodSegs_def noDoubleSlash_free)
next
  case (3 s t ss)
  from "3.prems" have s: "s \<noteq> []" "slash \<notin> set s" and rest: "goodSegs (t # ss)"
    by (simp_all add: goodSegs_def)
  from "3.IH"(2) [OF rest] have ih: "noDoubleSlash (join_with ''/'' (t # ss))"
    "join_with ''/'' (t # ss) \<noteq> []" "hd (join_with ''/'' (t # ss)) \<noteq> slash"
    "last (join_with ''/'' (t # ss)) \<noteq> slash" by simp_all
  have sl: "''/'' = [slash]" by (simp add: slash_def)
  show ?case using s ih free_hd_last [OF s]
    by (simp add: sl noDoubleSlash_append noDoubleSlash_free noDoubleSlash_Cons)
qed

lemma split_on_nonempty: "split_on c s \<noteq> []"
  by (induction s) (auto split: list.splits)

lemma split_on_free: "\<forall>seg \<in> set (split_on c s). c \<notin> set seg"
proof (induction s)
  case Nil
  then show ?case by simp
next
  case (Cons x xs)
  then show ?case using split_on_nonempty [of c xs]
    by (cases "split_on c xs") auto
qed

lemma normalizeSegments_good:
  "goodSegs res \<Longrightarrow> \<forall>seg \<in> set segs. slash \<notin> set seg \<Longrightarrow>
     goodSegs (normalizeSegments a segs res)"
proof (induction segs arbitrary: res)
  case Nil
  then show ?case by (simp add: goodSegs_def)
next
  case (Cons seg segs)
  note IH = Cons.IH and prems = Cons.prems
  from prems have segs: "\<forall>seg \<in> set segs. slash \<notin> set seg" by simp
  have step: "goodSegs (normalizeSegments a segs r)" if "goodSegs r" for r
    using IH [OF that segs] .
  have dd: "goodSegs (''..'' # res)"
    using prems(1) by (simp add: goodSegs_def slash_def)
  have dd0: "goodSegs [''..'']" "goodSegs []"
    by (simp_all add: goodSegs_def slash_def)
  have below: "goodSegs r" if "res = x # r" for x r
    using that prems(1) by (simp add: goodSegs_def)
  have push: "goodSegs (seg # res)" if "seg \<noteq> []"
    using that prems by (simp add: goodSegs_def)
  consider (skip) "seg = [] \<or> seg = ''.''" | (up) "seg = ''..''"
    | (keep) "seg \<noteq> []" "seg \<noteq> ''.''" "seg \<noteq> ''..''" by blast
  then show ?case
  proof cases
    case skip
    then show ?thesis using step [OF prems(1)] by auto
  next
    case up
    show ?thesis
    proof (cases res)
      case Nil
      then show ?thesis using up step [OF dd0(1)] step [OF dd0(2)] by (cases a) simp_all
    next
      case (Cons x r)
      then show ?thesis using up step [OF dd] step [OF prems(1)] step [OF below [OF Cons]]
        by (cases a) auto
    qed
  next
    case keep
    then show ?thesis using step [OF push [OF keep(1)]] by simp
  qed
qed


lemma posix_normalize_good:
  "noDoubleSlash (posix_normalize p) \<and> posix_normalize p \<noteq> [] \<and>
   (p \<noteq> [] \<and> hd p = slash \<longrightarrow> hd (posix_normalize p) = slash)"
proof (cases "p = []")
  case True
  then show ?thesis by (simp add: posix_normalize_def)
next
  case False
  define a where "a = (hd p \<noteq> slash)"
  define segs where "segs = normalizeSegments a (split_on slash p) []"
  define q where "q = join_with ''/'' segs"
  have "goodSegs []" by (simp add: goodSegs_def)
  then have good: "goodSegs segs"
    unfolding segs_def using split_on_free [of slash p] by (rule normalizeSegments_good)
  have q: "noDoubleSlash q" "q \<noteq> [] \<Longrightarrow> hd q \<noteq> slash \<and> last q \<noteq> slash"
    using join_good [OF good] unfolding q_def by (cases segs, simp, simp)+
  have sl: "''/'' = [slash]" by (simp add: slash_def)
  have unfold: "posix_normalize p =
      (if q = [] then (if \<not> a then ''/'' else if last p = slash then ''./'' else ''.'')
       else (let q' = (if last p = slash then q @ ''/'' else q)
             in if \<not> a then ''/'' @ q' else q'))"
    using False by (simp add: posix_normalize_def normalizeString_def Let_def q_def segs_def a_def)
  show ?thesis
  proof (cases "q = []")
    case True
    then show ?thesis unfolding unfold a_def by (simp add: slash_def)
  next
    case nonempty: False
    with q show ?thesis unfolding unfold a_def
      by (auto simp: sl Let_def noDoubleSlash_append noDoubleSlash_Cons)
  qed
qed

lemma hd_join_with: "a \<noteq> [] \<Longrightarrow> hd (join_with sep (a # xs)) = hd a"
  by (cases xs) simp_all

lemma join_with_nonempty: "a \<noteq> [] \<Longrightarrow> join_with sep (a # xs) \<noteq> []"
  by (cases xs) simp_all

lemma posix_join_good: "noDoubleSlash (posix_join args) \<and> posix_join args \<noteq> []"
  using posix_normalize_good by (simp add: posix_join_def Let_def)

lemma posix_join_absolute:
  "a \<noteq> [] \<Longrightarrow> hd a = slash \<Longrightarrow> hd (posix_join (a # rest)) = slash"
  using posix_normalize_good [of "join_with ''/'' (a # filter (\<lambda>a. a \<noteq> []) rest)"]
  by (simp add: posix_join_def Let_def hd_join_with join_with_nonempty)

lemma startsWith_slash: "startsWith p ''/'' \<longleftrightarrow> p \<noteq> [] \<and> hd p = slash"
  by (cases p) (auto simp: startsWith_def slash_def)

lemma ensureLeadingSlash_good:
  "ensureLeadingSlash p \<noteq> [] \<and> hd (ensureLeadingSlash p) = slash"
  by (cases p) (auto simp: ensureLeadingSlash_def startsWith_def slash_def)

lemma ensureLeadingSlash_noDouble:
  "noDoubleSlash p \<Longrightarrow> noDoubleSlash (ensureLeadingSlash p)"
  by (auto simp: ensureLeadingSlash_def startsWith_slash noDoubleSlash_Cons)

lemma calculateRemotePath_good:
  "startsWith (calculateRemotePath dirname st file activeFile filePath) ''/'' \<and>
   noDoubleSlash (calculateRemotePath dirname st file activeFile filePath)"
  unfolding calculateRemotePath_def Let_def startsWith_slash
  using posix_join_good posix_join_absolute ensureLeadingSlash_good by simp

lemma syncRemotePath_good:
  "startsWith (syncRemotePath st filePath) ''/'' \<and> noDoubleSlash (syncRemotePath st filePath)"
  unfolding syncRemotePath_def Let_def startsWith_slash
  using posix_join_good ensureLeadingSlash_good ensureLeadingSlash_noDouble by simp






subsection \<open>The shape of the remote path\<close>








lemma resolveDrop_remoteFilePath:
  "\<not> isLocalLink (fst (resolveDrop tr dirname st file activeFile h)) \<Longrightarrow>
     remoteFilePath (fst (resolveDrop tr dirname st file activeFile h)) =
       syncRemotePath st (file_path file) \<or>
     remoteFilePath (fst (resolveDrop tr dirname st file activeFile h)) =
       calculateRemotePath dirname st file activeFile (file_path file)"
  by (auto simp: resolveDrop_def Let_def split: if_splits)




subsection \<open>The sync folder\<close>

lemma of_char_lowerChar:
  "(of_char (lowerChar c) :: nat) =
     (if (65 \<le> (of_char c :: nat) \<and> (of_char c :: nat) \<le> 90) \<or>
         (192 \<le> (of_char c :: nat) \<and> (of_char c :: nat) \<le> 222 \<and> (of_char c :: nat) \<noteq> 215)
      then of_char c + 32 else of_char c)"
  by (simp add: lowerChar_def Let_def)

lemma lowerChar_sep:
  "lowerChar c = slash \<longleftrightarrow> c = slash" "lowerChar c = backslash \<longleftrightarrow> c = backslash"
proof -
  have eq: "x = y \<longleftrightarrow> (of_char x :: nat) = of_char y" for x y :: char by simp
  have s: "(of_char slash :: nat) = 47" "(of_char backslash :: nat) = 92"
    by (simp_all add: slash_def backslash_def)
  show "lowerChar c = slash \<longleftrightarrow> c = slash"
    unfolding eq [of "lowerChar c"] eq [of c] of_char_lowerChar s by auto
  show "lowerChar c = backslash \<longleftrightarrow> c = backslash"
    unfolding eq [of "lowerChar c"] eq [of c] of_char_lowerChar s by auto
qed

lemma lowerChar_isSep: "isSep (lowerChar c) = isSep c"
  by (simp add: isSep_def lowerChar_sep)

lemma lowerChar_slash: "lowerChar slash = slash"
  by (simp add: lowerChar_sep)

lemma toLowerCase_replaceBackslashes:
  "toLowerCase (replaceBackslashes s) = replaceBackslashes (toLowerCase s)"
  by (simp add: toLowerCase_def replaceBackslashes_def lowerChar_sep lowerChar_slash)

lemma toLowerCase_stripTrailingSeps:
  "toLowerCase (stripTrailingSeps s) = stripTrailingSeps (toLowerCase s)"
  by (simp add: toLowerCase_def stripTrailingSeps_def rev_map dropWhile_map comp_def
        lowerChar_isSep)

lemma isSep_replace: "isSep (if c = backslash then slash else c) = isSep c"
  by (simp add: isSep_def)

lemma replaceBackslashes_stripTrailingSeps:
  "replaceBackslashes (stripTrailingSeps s) = stripTrailingSeps (replaceBackslashes s)"
  by (simp add: replaceBackslashes_def stripTrailingSeps_def rev_map dropWhile_map comp_def
        isSep_replace)

lemma insideSyncFolder_case_insensitive:
  assumes "toLowerCase syncFolder = toLowerCase syncFolder'" "toLowerCase filePath = toLowerCase filePath'"
  shows "insideSyncFolder syncFolder filePath = insideSyncFolder syncFolder' filePath'"
  using assms
  by (simp add: insideSyncFolder_def Let_def toLowerCase_replaceBackslashes
        toLowerCase_stripTrailingSeps)

lemma insideSyncFolder_separator_insensitive:
  assumes "replaceBackslashes syncFolder = replaceBackslashes syncFolder'"
    "replaceBackslashes filePath = replaceBackslashes filePath'"
  shows "insideSyncFolder syncFolder filePath = insideSyncFolder syncFolder' filePath'"
  using assms
  by (simp add: insideSyncFolder_def Let_def replaceBackslashes_stripTrailingSeps)

lemma uploadFile_outside:
  assumes "pathMode st = Local" "localSyncFolder st \<noteq> []" "remoteSyncFolder st \<noteq> []"
    "file_path file \<noteq> []" "view_file view = Some activeFile"
    "\<not> insideSyncFolder (localSyncFolder st) (file_path file)"
  shows "uploadFile tr dirname st file view h =
           h\<lparr>notices := notices h @ [OutsideSyncFolder], editor := editor h @ [localLinkText file]\<rparr>"
  using assms
  by (simp add: uploadFile_def uploadFileTry_def resolveDrop_def Let_def showNotice_def
        replaceSelection_def)

lemma resolveDrop_inside:
  assumes "pathMode st = Local" "localSyncFolder st \<noteq> []" "remoteSyncFolder st \<noteq> []"
    "file_path file \<noteq> []" "insideSyncFolder (localSyncFolder st) (file_path file)"
  shows "\<not> isLocalLink (fst (resolveDrop tr dirname st file activeFile h)) \<and>
         remoteFilePath (fst (resolveDrop tr dirname st file activeFile h)) =
           syncRemotePath st (file_path file)"
  using assms by (simp add: resolveDrop_def Let_def)

text \<open>
  What containment is, in the operations of lists alone: trailing separators are taken off
  the sync folder, backslashes become slashes in both strings, both are lower-cased, and
  the folder has to be a prefix of the file's path.
\<close>

lemma insideSyncFolder_is_prefix_test:
  "insideSyncFolder syncFolder filePath \<longleftrightarrow>
     prefix
       (map lowerChar
          (map (\<lambda>c. if c = CHR 0x5C then CHR ''/'' else c)
             (rev (dropWhile (\<lambda>c. c = CHR ''/'' \<or> c = CHR 0x5C) (rev syncFolder)))))
       (map lowerChar (map (\<lambda>c. if c = CHR 0x5C then CHR ''/'' else c) filePath))"
  unfolding insideSyncFolder_def Let_def startsWith_def toLowerCase_def replaceBackslashes_def
    stripTrailingSeps_def isSep_def [abs_def] slash_def backslash_def
  by simp

text \<open>
  A file whose path is the sync folder followed by a separator and anything is inside,
  whatever the case of its letters and whichever separators either is written with.
\<close>

lemma file_under_sync_folder_is_inside:
  assumes "toLowerCase (replaceBackslashes filePath) =
             toLowerCase (replaceBackslashes (stripTrailingSeps syncFolder)) @ rest"
  shows "insideSyncFolder syncFolder filePath"
  using assms by (simp add: insideSyncFolder_def Let_def startsWith_def)

text \<open>
  Claim C4 does not hold of the code. The test for "inside the sync folder" is a test on
  strings: the file's path, lower-cased and with slashes, has to begin with the sync
  folder's. It asks for no separator after the folder's name, so a file in the folder
  \<^verbatim>\<open>SyncBackup\<close> beside the sync folder \<^verbatim>\<open>sync\<close> counts as inside: instead
  of the local link, seven requests are sent and the file is uploaded, to a remote path
  made from the rest of the folder's name.
\<close>

theorem sibling_folder_is_uploaded:
  "pathMode syncSettings = Local \<and> localSyncFolder syncSettings = ''c:/users/me/sync'' \<and>
   file_path siblingFile = ''C:/Users/Me/SyncBackup/secret.png'' \<and>
   insideSyncFolder (localSyncFolder syncSettings) (file_path siblingFile) \<and>
   map (\<lambda>c. (rq_method (fst c), rq_url (fst c), snd c))
     (calls (uploadFile hasNothing posix_dirname syncSettings siblingFile openNote emptyHost)) =
     [(''PROPFIND'', ''https://dav.example/base/remote/Backup/secret.png'',
       Inl (JsError (Some 404) ''Not Found'')),
      (''PROPFIND'', ''https://dav.example/base/remote/Backup'', Inl (JsError (Some 404) ''Not Found'')),
      (''PROPFIND'', ''https://dav.example/base/remote'', Inl (JsError (Some 404) ''Not Found'')),
      (''MKCOL'', ''https://dav.example/base/remote'', Inr (Response 201)),
      (''PROPFIND'', ''https://dav.example/base/remote/Backup'', Inl (JsError (Some 404) ''Not Found'')),
      (''MKCOL'', ''https://dav.example/base/remote/Backup'', Inr (Response 201)),
      (''PUT'', ''https://dav.example/base/remote/Backup/secret.png'', Inr (Response 201))] \<and>
   notices (uploadFile hasNothing posix_dirname syncSettings siblingFile openNote emptyHost) =
     [Uploading ''secret.png'', UploadOk ''secret.png''] \<and>
   editor (uploadFile hasNothing posix_dirname syncSettings siblingFile openNote emptyHost) =
     [''[secret.png](https://dav.example/base/remote/Backup/secret.png)'' @ newline]"
proof -
  have "pathMode syncSettings = Local" "localSyncFolder syncSettings = ''c:/users/me/sync''"
    "file_path siblingFile = ''C:/Users/Me/SyncBackup/secret.png''"
    by (simp_all add: syncSettings_def siblingFile_def)
  moreover have "insideSyncFolder (localSyncFolder syncSettings) (file_path siblingFile)"
    by code_simp
  moreover have "map (\<lambda>c. (rq_method (fst c), rq_url (fst c), snd c))
     (calls (uploadFile hasNothing posix_dirname syncSettings siblingFile openNote emptyHost)) =
     [(''PROPFIND'', ''https://dav.example/base/remote/Backup/secret.png'',
       Inl (JsError (Some 404) ''Not Found'')),
      (''PROPFIND'', ''https://dav.example/base/remote/Backup'', Inl (JsError (Some 404) ''Not Found'')),
      (''PROPFIND'', ''https://dav.example/base/remote'', Inl (JsError (Some 404) ''Not Found'')),
      (''MKCOL'', ''https://dav.example/base/remote'', Inr (Response 201)),
      (''PROPFIND'', ''https://dav.example/base/remote/Backup'', Inl (JsError (Some 404) ''Not Found'')),
      (''MKCOL'', ''https://dav.example/base/remote/Backup'', Inr (Response 201)),
      (''PUT'', ''https://dav.example/base/remote/Backup/secret.png'', Inr (Response 201))]"
    by code_simp
  moreover have "notices (uploadFile hasNothing posix_dirname syncSettings siblingFile openNote emptyHost) =
     [Uploading ''secret.png'', UploadOk ''secret.png'']"
    by code_simp
  moreover have "editor (uploadFile hasNothing posix_dirname syncSettings siblingFile openNote emptyHost) =
     [''[secret.png](https://dav.example/base/remote/Backup/secret.png)'' @ newline]"
    by code_simp
  ultimately show ?thesis by simp
qed

subsection \<open>What each operation leaves untouched\<close>

lemma request_fields:
  "notices (snd (request tr st m p hs d h)) = notices h"
  "editor (snd (request tr st m p hs d h)) = editor h"
  "calls (snd (request tr st m p hs d h)) =
     calls h @ [(requestParams st m p hs d, fst (tr (requestParams st m p hs d) (world h)))]"
  by (simp_all add: request_effect)

lemma request_puts:
  "m \<noteq> ''PUT'' \<Longrightarrow> putCalls (snd (request tr st m p hs d h)) = putCalls h"
  by (simp add: putCalls_def request_fields requestParams_def)

lemma webdavExists_fields:
  "notices (snd (webdavExists tr st p h)) = notices h"
  "editor (snd (webdavExists tr st p h)) = editor h"
  "putCalls (snd (webdavExists tr st p h)) = putCalls h"
  "calls (snd (webdavExists tr st p h)) =
     calls h @ [(requestParams st ''PROPFIND'' p [(''Depth'', ''0'')] None,
                 fst (tr (requestParams st ''PROPFIND'' p [(''Depth'', ''0'')] None) (world h)))]"
  by (simp_all add: webdavExists_effect request_fields request_puts)

lemma createDirectoryLoop_fields:
  "notices (snd (createDirectoryLoop tr st cur parts h)) = notices h \<and>
   editor (snd (createDirectoryLoop tr st cur parts h)) = editor h \<and>
   putCalls (snd (createDirectoryLoop tr st cur parts h)) = putCalls h \<and>
   (\<exists>cs. calls (snd (createDirectoryLoop tr st cur parts h)) = calls h @ cs)"
proof (induction parts arbitrary: cur h)
  case Nil
  then show ?case by simp
next
  case (Cons part parts)
  define cur' where "cur' = cur @ ''/'' @ part"
  define h1 where "h1 = snd (webdavExists tr st cur' h)"
  define mk where "mk = request tr st ''MKCOL'' cur' [] None h1"
  have h1: "notices h1 = notices h" "editor h1 = editor h" "putCalls h1 = putCalls h"
    "\<exists>cs. calls h1 = calls h @ cs"
    unfolding h1_def by (simp_all add: webdavExists_fields)
  have mk: "notices (snd mk) = notices h" "editor (snd mk) = editor h"
    "putCalls (snd mk) = putCalls h" "\<exists>cs. calls (snd mk) = calls h @ cs"
    unfolding mk_def using h1 by (auto simp: request_fields request_puts)
  show ?case
  proof (cases "fst (webdavExists tr st cur' h)")
    case True
    then have "createDirectoryLoop tr st cur (part # parts) h = createDirectoryLoop tr st cur' parts h1"
      by (simp add: cur'_def h1_def Let_def)
    with Cons.IH [of cur' h1] h1 show ?thesis by auto
  next
    case False
    show ?thesis
    proof (cases "fst mk")
      case (Inl err)
      with False have "createDirectoryLoop tr st cur (part # parts) h = (Inl err, snd mk)"
        by (simp add: cur'_def h1_def mk_def Let_def case_prod_beta)
      with mk show ?thesis by simp
    next
      case (Inr r)
      with False have "createDirectoryLoop tr st cur (part # parts) h =
          createDirectoryLoop tr st cur' parts (snd mk)"
        by (simp add: cur'_def h1_def mk_def Let_def case_prod_beta)
      with Cons.IH [of cur' "snd mk"] mk show ?thesis by auto
    qed
  qed
qed

lemma ensureRemoteFolder_fields:
  "notices (snd (ensureRemoteFolder tr st p h)) = notices h \<and>
   editor (snd (ensureRemoteFolder tr st p h)) = editor h \<and>
   putCalls (snd (ensureRemoteFolder tr st p h)) = putCalls h \<and>
   (\<exists>cs. calls (snd (ensureRemoteFolder tr st p h)) = calls h @ cs)"
  using createDirectoryLoop_fields
          [of tr st "[]" "pathParts (posix_dirname p)" "snd (webdavExists tr st (posix_dirname p) h)"]
  by (auto simp: ensureRemoteFolder_def webdavCreateDirectory_def Let_def webdavExists_fields)

lemma webdavPut_effect:
  "snd (webdavPut tr st p data h) =
     snd (request tr st ''PUT'' p [(''Content-Type'', ''application/octet-stream'')] (Some data) h)"
  "fst (webdavPut tr st p data h) = Inr () \<or>
     (\<exists>err. fst (webdavPut tr st p data h) = Inl err \<and>
        fst (tr (requestParams st ''PUT'' p [(''Content-Type'', ''application/octet-stream'')] (Some data))
              (world h)) = Inl err \<and> err_status err \<noteq> Some 404)"
  using request_result [of tr st "''PUT''" p "[(''Content-Type'', ''application/octet-stream'')]" "Some data" h]
  by (auto simp: webdavPut_def split: prod.splits sum.splits if_splits)

lemma webdavPut_fields:
  "notices (snd (webdavPut tr st p data h)) = notices h"
  "editor (snd (webdavPut tr st p data h)) = editor h"
  "calls (snd (webdavPut tr st p data h)) =
     calls h @ [(requestParams st ''PUT'' p [(''Content-Type'', ''application/octet-stream'')] (Some data),
                 fst (tr (requestParams st ''PUT'' p [(''Content-Type'', ''application/octet-stream'')]
                            (Some data)) (world h)))]"
  "putCalls (snd (webdavPut tr st p data h)) =
     putCalls h @ [(requestParams st ''PUT'' p [(''Content-Type'', ''application/octet-stream'')] (Some data),
                 fst (tr (requestParams st ''PUT'' p [(''Content-Type'', ''application/octet-stream'')]
                            (Some data)) (world h)))]"
  by (simp_all add: webdavPut_effect request_fields putCalls_def requestParams_def)

subsection \<open>The upload step and the try block\<close>

lemma uploadStep_skip:
  "\<not> (shouldUpload r \<and> remoteFilePath r \<noteq> []) \<Longrightarrow> uploadStep tr st file r h = (Inr (), h)"
  by (auto simp: uploadStep_def)

lemma putCalls_showNotice: "putCalls (showNotice n h) = putCalls h"
  by (simp add: putCalls_def showNotice_def)





lemma uploadStep_fields:
  "editor (snd (uploadStep tr st file r h)) = editor h \<and>
   (\<exists>ns. notices (snd (uploadStep tr st file r h)) = notices h @ ns) \<and>
   (\<exists>cs. calls (snd (uploadStep tr st file r h)) = calls h @ cs)"
proof (cases "shouldUpload r \<and> remoteFilePath r \<noteq> []")
  case False
  then show ?thesis by (simp add: uploadStep_skip)
next
  case True
  define h1 where "h1 = snd (ensureRemoteFolder tr st (remoteFilePath r) h)"
  have h1: "editor h1 = editor h" "notices h1 = notices h" "\<exists>cs. calls h1 = calls h @ cs"
    using ensureRemoteFolder_fields [of tr st "remoteFilePath r" h] by (simp_all add: h1_def)
  define h2 where "h2 = (\<lambda>data. snd (webdavPut tr st (remoteFilePath r) data
                                        (showNotice (Uploading (file_name file)) h1)))"
  have h2: "editor (h2 data) = editor h"
    "notices (h2 data) = notices h @ [Uploading (file_name file)]"
    "\<exists>cs. calls (h2 data) = calls h @ cs" for data
    using h1 by (auto simp: h2_def webdavPut_fields showNotice_def)
  have "snd (uploadStep tr st file r h) = h1 \<or>
        (\<exists>data. snd (uploadStep tr st file r h) = h2 data) \<or>
        (\<exists>data. snd (uploadStep tr st file r h) = showNotice (UploadOk (file_name file)) (h2 data))"
    using True by (auto simp: uploadStep_def case_prod_beta h1_def h2_def split: sum.splits)
  then show ?thesis using h1 h2 by (auto simp: showNotice_def)
qed

lemma resolveDrop_fields:
  "editor (snd (resolveDrop tr dirname st file activeFile h)) = editor h \<and>
   putCalls (snd (resolveDrop tr dirname st file activeFile h)) = putCalls h \<and>
   (\<exists>ns. notices (snd (resolveDrop tr dirname st file activeFile h)) = notices h @ ns) \<and>
   (\<exists>cs. calls (snd (resolveDrop tr dirname st file activeFile h)) = calls h @ cs)"
  by (simp add: resolveDrop_def Let_def webdavExists_fields putCalls_showNotice)
     (simp add: showNotice_def webdavExists_fields)

lemma resolveDrop_nonempty:
  "\<not> isLocalLink (fst (resolveDrop tr dirname st file activeFile h)) \<Longrightarrow>
     remoteFilePath (fst (resolveDrop tr dirname st file activeFile h)) \<noteq> []"
  using resolveDrop_remoteFilePath [of tr dirname st "file" activeFile h]
    calculateRemotePath_good [of dirname st "file" activeFile "file_path file"]
    syncRemotePath_good [of st "file_path file"]
  by (auto simp: startsWith_slash)

lemma uploadFileTry_failure:
  assumes "fst (uploadFileTry tr dirname st file view h) = Inl err"
  shows "editor (snd (uploadFileTry tr dirname st file view h)) = editor h"
proof (cases "view_file view")
  case None
  with assms show ?thesis by (simp add: uploadFileTry_def)
next
  case (Some activeFile)
  define res where "res = resolveDrop tr dirname st file activeFile h"
  define up where "up = uploadStep tr st file (fst res) (snd res)"
  have ed: "editor (snd up) = editor h"
    using uploadStep_fields [of tr st "file" "fst res" "snd res"]
      resolveDrop_fields [of tr dirname st "file" activeFile h]
    by (simp add: up_def res_def)
  from assms Some have "snd (uploadFileTry tr dirname st file view h) = snd up"
    by (auto simp: uploadFileTry_def Let_def case_prod_beta res_def up_def split: if_splits sum.splits)
  with ed show ?thesis by simp
qed

lemma uploadFileTry_success:
  assumes "view_file view = Some activeFile"
    "fst (uploadFileTry tr dirname st file view h) = Inr u"
  shows "editor (snd (uploadFileTry tr dirname st file view h)) =
           editor h @
             [if isLocalLink (fst (resolveDrop tr dirname st file activeFile h)) then localLinkText file
              else remoteLinkText st file
                     (remoteFilePath (fst (resolveDrop tr dirname st file activeFile h)))]"
proof -
  define res where "res = resolveDrop tr dirname st file activeFile h"
  define up where "up = uploadStep tr st file (fst res) (snd res)"
  have ed: "editor (snd up) = editor h" "editor (snd res) = editor h"
    using uploadStep_fields [of tr st "file" "fst res" "snd res"]
      resolveDrop_fields [of tr dirname st "file" activeFile h]
    by (simp_all add: up_def res_def)
  have ne: "\<not> isLocalLink (fst res) \<Longrightarrow> remoteFilePath (fst res) \<noteq> []"
    unfolding res_def by (rule resolveDrop_nonempty)
  show ?thesis
    using assms ed ne
    by (auto simp: uploadFileTry_def Let_def case_prod_beta replaceSelection_def
          res_def [symmetric] up_def [symmetric] split: if_splits sum.splits)
qed

lemma uploadFileTry_fields:
  "(\<exists>ns. notices (snd (uploadFileTry tr dirname st file view h)) = notices h @ ns) \<and>
   (\<exists>cs. calls (snd (uploadFileTry tr dirname st file view h)) = calls h @ cs)"
proof (cases "view_file view")
  case None
  then show ?thesis by (simp add: uploadFileTry_def)
next
  case (Some activeFile)
  define res where "res = resolveDrop tr dirname st file activeFile h"
  define up where "up = uploadStep tr st file (fst res) (snd res)"
  have r: "\<exists>ns. notices (snd res) = notices h @ ns" "\<exists>cs. calls (snd res) = calls h @ cs"
    using resolveDrop_fields [of tr dirname st "file" activeFile h] by (simp_all add: res_def)
  have u: "\<exists>ns. notices (snd up) = notices h @ ns" "\<exists>cs. calls (snd up) = calls h @ cs"
    using uploadStep_fields [of tr st "file" "fst res" "snd res"] r
    by (auto simp: up_def)
  have "snd (uploadFileTry tr dirname st file view h) = replaceSelection (localLinkText file) (snd res)
      \<or> snd (uploadFileTry tr dirname st file view h) = snd up
      \<or> snd (uploadFileTry tr dirname st file view h) =
           replaceSelection (remoteLinkText st file (remoteFilePath (fst res))) (snd up)"
    using Some
    by (auto simp: uploadFileTry_def Let_def case_prod_beta res_def [symmetric] up_def [symmetric]
          split: sum.splits)
  then show ?thesis using r u by (auto simp: replaceSelection_def)
qed

lemma uploadFile_fields:
  "(\<exists>ns. notices (uploadFile tr dirname st file view h) = notices h @ ns) \<and>
   (\<exists>cs. calls (uploadFile tr dirname st file view h) = calls h @ cs)"
  using uploadFileTry_fields [of tr dirname st "file" view h]
  by (auto simp: uploadFile_def case_prod_beta showNotice_def split: sum.splits)

lemma uploadFile_failure:
  assumes "fst (uploadFileTry tr dirname st file view h) = Inl err"
  shows "uploadFile tr dirname st file view h =
           showNotice (UploadFailed (err_message err)) (snd (uploadFileTry tr dirname st file view h))"
    and "editor (uploadFile tr dirname st file view h) = editor h"
  using assms uploadFileTry_failure [OF assms]
  by (simp_all add: uploadFile_def case_prod_beta showNotice_def)

lemma uploadFile_success:
  assumes "fst (uploadFileTry tr dirname st file view h) = Inr u"
  shows "uploadFile tr dirname st file view h = snd (uploadFileTry tr dirname st file view h)"
  using assms by (simp add: uploadFile_def case_prod_beta)

subsection \<open>Preferring the existing remote file\<close>






text \<open>
  In note mode, and in local mode without a sync folder, resolution sends no probe of the
  remote path, whatever \<open>preferExistingLink\<close> says: the file is always to be uploaded.
\<close>

lemma no_probe_outside_sync_branch:
  assumes "pathMode st = Note \<or> localSyncFolder st = [] \<or> remoteSyncFolder st = [] \<or> file_path file = []"
  shows "resolveDrop tr dirname st file activeFile h =
           (\<lparr>remoteFilePath = calculateRemotePath dirname st file activeFile (file_path file),
             shouldUpload = True, isLocalLink = False\<rparr>, h)"
  using assms by (cases "pathMode st") (auto simp: resolveDrop_def Let_def)

lemma note_mode_uploads_existing_file:
  "pathMode exampleSettings = Note \<and> preferExistingLink exampleSettings \<and>
   map (\<lambda>c. (rq_method (fst c), rq_url (fst c), snd c))
     (calls (uploadFile hasEverything posix_dirname exampleSettings insideFile openNote emptyHost)) =
     [(''PROPFIND'', ''https://dav.example/base/s'', Inr (Response 207)),
      (''PUT'', ''https://dav.example/base/s/a.png'', Inr (Response 204))]"
proof -
  have "map (\<lambda>c. (rq_method (fst c), rq_url (fst c), snd c))
     (calls (uploadFile hasEverything posix_dirname exampleSettings insideFile openNote emptyHost)) =
     [(''PROPFIND'', ''https://dav.example/base/s'', Inr (Response 207)),
      (''PUT'', ''https://dav.example/base/s/a.png'', Inr (Response 204))]"
    by code_simp
  then show ?thesis by (simp add: exampleSettings_def)
qed

subsection \<open>A 404 answer to an upload\<close>

text \<open>
  Claim C7 does not hold of the code. \<^verbatim>\<open>request\<close> turns every thrown 404 into
  \<^verbatim>\<open>null\<close>, for uploads and directory creation as for the probes. On a server that
  answers 404 to everything, no request succeeds, the upload included; no error reaches
  the \<^verbatim>\<open>catch\<close>, the user is told the upload succeeded, and the link is inserted.
\<close>

theorem failed_upload_still_inserts_link:
  "map (\<lambda>c. (rq_method (fst c), rq_url (fst c), snd c))
     (calls (uploadFile (alwaysStatus 404) posix_dirname exampleSettings insideFile openNote emptyHost)) =
     [(''PROPFIND'', ''https://dav.example/base/s'', Inl (JsError (Some 404) ''Request failed'')),
      (''PROPFIND'', ''https://dav.example/base/s'', Inl (JsError (Some 404) ''Request failed'')),
      (''MKCOL'', ''https://dav.example/base/s'', Inl (JsError (Some 404) ''Request failed'')),
      (''PUT'', ''https://dav.example/base/s/a.png'', Inl (JsError (Some 404) ''Request failed''))] \<and>
   notices (uploadFile (alwaysStatus 404) posix_dirname exampleSettings insideFile openNote emptyHost) =
     [Uploading ''a.png'', UploadOk ''a.png''] \<and>
   editor (uploadFile (alwaysStatus 404) posix_dirname exampleSettings insideFile openNote emptyHost) =
     [''[a.png](https://dav.example/base/s/a.png)'' @ newline]"
proof -
  have "map (\<lambda>c. (rq_method (fst c), rq_url (fst c), snd c))
     (calls (uploadFile (alwaysStatus 404) posix_dirname exampleSettings insideFile openNote emptyHost)) =
     [(''PROPFIND'', ''https://dav.example/base/s'', Inl (JsError (Some 404) ''Request failed'')),
      (''PROPFIND'', ''https://dav.example/base/s'', Inl (JsError (Some 404) ''Request failed'')),
      (''MKCOL'', ''https://dav.example/base/s'', Inl (JsError (Some 404) ''Request failed'')),
      (''PUT'', ''https://dav.example/base/s/a.png'', Inl (JsError (Some 404) ''Request failed''))]"
    by code_simp
  moreover have "notices (uploadFile (alwaysStatus 404) posix_dirname exampleSettings insideFile openNote emptyHost) =
     [Uploading ''a.png'', UploadOk ''a.png'']"
    by code_simp
  moreover have "editor (uploadFile (alwaysStatus 404) posix_dirname exampleSettings insideFile openNote emptyHost) =
     [''[a.png](https://dav.example/base/s/a.png)'' @ newline]"
    by code_simp
  ultimately show ?thesis by simp
qed

subsection \<open>Several files in one drop\<close>

lemma uploadFiles_append:
  "uploadFiles tr dirname st view (xs @ ys) h =
     uploadFiles tr dirname st view ys (uploadFiles tr dirname st view xs h)"
  by (induction xs arbitrary: h) simp_all

lemma onDrop_configured:
  assumes "webdavUrl st \<noteq> []" "username st \<noteq> []" "password st \<noteq> []"
  shows "onDrop tr dirname st (Some view) files h = uploadFiles tr dirname st view files h"
  using assms by (cases files) (simp_all add: onDrop_def)

text \<open>
  With the plugin configured and a note open, the files of a drop are handled one after
  the other in drop order: the file at any position is handled, in the state its
  predecessors left, whatever happened to them. A file whose handling throws leaves the
  editor as it was and adds the failure notice. So when handling A throws and handling B
  does not, dropping A and B inserts exactly one link, the one for B, and the notice of
  A's failure is among the notices.
\<close>

lemma files_handled_in_order:
  assumes "webdavUrl st \<noteq> []" "username st \<noteq> []" "password st \<noteq> []"
  shows
    "onDrop tr dirname st (Some view) (before @ file # after) h =
       uploadFiles tr dirname st view after
         (uploadFile tr dirname st file view (uploadFiles tr dirname st view before h)) \<and>
     (fst (uploadFileTry tr dirname st file view h) = Inl err \<longrightarrow>
        uploadFile tr dirname st file view h =
          showNotice (UploadFailed (err_message err)) (snd (uploadFileTry tr dirname st file view h)) \<and>
        editor (uploadFile tr dirname st file view h) = editor h) \<and>
     (view_file view = Some activeFile \<and>
      fst (uploadFileTry tr dirname st fileA view h) = Inl err \<and>
      fst (uploadFileTry tr dirname st fileB view (uploadFile tr dirname st fileA view h)) = Inr () \<longrightarrow>
        editor (onDrop tr dirname st (Some view) [fileA, fileB] h) =
          editor h @
            [if isLocalLink (fst (resolveDrop tr dirname st fileB activeFile
                                    (uploadFile tr dirname st fileA view h)))
             then localLinkText fileB
             else remoteLinkText st fileB
                    (remoteFilePath (fst (resolveDrop tr dirname st fileB activeFile
                                            (uploadFile tr dirname st fileA view h))))] \<and>
        UploadFailed (err_message err) \<in> set (notices (onDrop tr dirname st (Some view) [fileA, fileB] h)))"
proof -
  have seq: "onDrop tr dirname st (Some view) (before @ file # after) h =
       uploadFiles tr dirname st view after
         (uploadFile tr dirname st file view (uploadFiles tr dirname st view before h))"
    by (simp add: onDrop_configured [OF assms] uploadFiles_append)
  have fail: "uploadFile tr dirname st file view h =
          showNotice (UploadFailed (err_message err)) (snd (uploadFileTry tr dirname st file view h)) \<and>
        editor (uploadFile tr dirname st file view h) = editor h"
    if "fst (uploadFileTry tr dirname st file view h) = Inl err"
    using uploadFile_failure [OF that] by simp
  have two: "editor (onDrop tr dirname st (Some view) [fileA, fileB] h) =
          editor h @
            [if isLocalLink (fst (resolveDrop tr dirname st fileB activeFile
                                    (uploadFile tr dirname st fileA view h)))
             then localLinkText fileB
             else remoteLinkText st fileB
                    (remoteFilePath (fst (resolveDrop tr dirname st fileB activeFile
                                            (uploadFile tr dirname st fileA view h))))] \<and>
        UploadFailed (err_message err) \<in> set (notices (onDrop tr dirname st (Some view) [fileA, fileB] h))"
    if v: "view_file view = Some activeFile"
      and a: "fst (uploadFileTry tr dirname st fileA view h) = Inl err"
      and b: "fst (uploadFileTry tr dirname st fileB view (uploadFile tr dirname st fileA view h)) = Inr ()"
  proof -
    define hA where "hA = uploadFile tr dirname st fileA view h"
    have run: "onDrop tr dirname st (Some view) [fileA, fileB] h = uploadFile tr dirname st fileB view hA"
      by (simp add: onDrop_configured [OF assms] hA_def)
    have edA: "editor hA = editor h"
      unfolding hA_def using uploadFile_failure(2) [OF a] .
    have ntA: "UploadFailed (err_message err) \<in> set (notices hA)"
      unfolding hA_def uploadFile_failure(1) [OF a] by (simp add: showNotice_def)
    have B: "uploadFile tr dirname st fileB view hA = snd (uploadFileTry tr dirname st fileB view hA)"
      using b unfolding hA_def [symmetric] by (rule uploadFile_success)
    have edB: "editor (uploadFile tr dirname st fileB view hA) =
        editor hA @
          [if isLocalLink (fst (resolveDrop tr dirname st fileB activeFile hA)) then localLinkText fileB
           else remoteLinkText st fileB (remoteFilePath (fst (resolveDrop tr dirname st fileB activeFile hA)))]"
      unfolding B using v b unfolding hA_def [symmetric] by (rule uploadFileTry_success)
    obtain ns where "notices (uploadFile tr dirname st fileB view hA) = notices hA @ ns"
      using uploadFile_fields [of tr dirname st fileB view hA] by blast
    with ntA have "UploadFailed (err_message err) \<in> set (notices (uploadFile tr dirname st fileB view hA))"
      by simp
    with edB edA run show ?thesis by (simp add: hA_def)
  qed
  from seq fail two show ?thesis by blast
qed

lemma files_handled_in_order_example:
  "webdavUrl exampleSettings \<noteq> [] \<and> username exampleSettings \<noteq> [] \<and> password exampleSettings \<noteq> [] \<and>
   view_file openNote = Some noteInSub \<and>
   fst (uploadFileTry payloadLimit posix_dirname exampleSettings bigFile openNote emptyHost) =
     Inl (JsError (Some 413) ''Payload Too Large'') \<and>
   fst (uploadFileTry payloadLimit posix_dirname exampleSettings pastedFile openNote
          (uploadFile payloadLimit posix_dirname exampleSettings bigFile openNote emptyHost)) = Inr () \<and>
   editor (onDrop payloadLimit posix_dirname exampleSettings (Some openNote) [bigFile, pastedFile] emptyHost) =
     [''[a.png](https://dav.example/base/s/a.png)'' @ newline] \<and>
   UploadFailed ''Payload Too Large'' \<in>
     set (notices (onDrop payloadLimit posix_dirname exampleSettings (Some openNote) [bigFile, pastedFile] emptyHost))"
proof -
  have cfg: "webdavUrl exampleSettings \<noteq> []" "username exampleSettings \<noteq> []"
    "password exampleSettings \<noteq> []"
    by (simp_all add: exampleSettings_def)
  have v: "view_file openNote = Some noteInSub" by (simp add: openNote_def)
  have a: "fst (uploadFileTry payloadLimit posix_dirname exampleSettings bigFile openNote emptyHost) =
     Inl (JsError (Some 413) ''Payload Too Large'')"
    by code_simp
  have b: "fst (uploadFileTry payloadLimit posix_dirname exampleSettings pastedFile openNote
          (uploadFile payloadLimit posix_dirname exampleSettings bigFile openNote emptyHost)) = Inr ()"
    by code_simp
  have r: "fst (resolveDrop payloadLimit posix_dirname exampleSettings pastedFile noteInSub
              (uploadFile payloadLimit posix_dirname exampleSettings bigFile openNote emptyHost)) =
           \<lparr>remoteFilePath = ''/s/a.png'', shouldUpload = True, isLocalLink = False\<rparr>"
    by code_simp
  have link: "remoteLinkText exampleSettings pastedFile ''/s/a.png'' =
      ''[a.png](https://dav.example/base/s/a.png)'' @ newline"
    by code_simp
  have h0: "editor emptyHost = []" by (simp add: emptyHost_def)
  note inst = files_handled_in_order [OF cfg, of payloadLimit posix_dirname openNote "[]" bigFile
         "[pastedFile]" emptyHost "JsError (Some 413) ''Payload Too Large''" noteInSub bigFile pastedFile]
  have c: "editor (onDrop payloadLimit posix_dirname exampleSettings (Some openNote) [bigFile, pastedFile] emptyHost) =
     [''[a.png](https://dav.example/base/s/a.png)'' @ newline] \<and>
   UploadFailed ''Payload Too Large'' \<in>
     set (notices (onDrop payloadLimit posix_dirname exampleSettings (Some openNote) [bigFile, pastedFile] emptyHost))"
    using inst [THEN conjunct2, THEN conjunct2] v a b r link h0 by simp
  from cfg v a b c show ?thesis by simp
qed

text \<open>
  Claim C6 does not hold of the code, through the defect reported under claim C7. The files
  are handled in drop order and a thrown error does not stop the loop (lemma
  \<open>files_handled_in_order\<close>), but a failure that the server reports with status 404
  is no thrown error: \<^verbatim>\<open>request\<close> turns it into \<^verbatim>\<open>null\<close>. When the upload of A
  is answered 404 and B is uploaded, no failure is notified, A is reported as uploaded, and
  two links are inserted, A's first.
\<close>

theorem swallowed_failure_inserts_both_links:
  "map (\<lambda>c. (rq_method (fst c), rq_url (fst c), snd c))
     (calls (onDrop bigUploadsNotFound posix_dirname exampleSettings (Some openNote)
               [bigFile, pastedFile] emptyHost)) =
     [(''PROPFIND'', ''https://dav.example/base/s'', Inl (JsError (Some 404) ''Not Found'')),
      (''PROPFIND'', ''https://dav.example/base/s'', Inl (JsError (Some 404) ''Not Found'')),
      (''MKCOL'', ''https://dav.example/base/s'', Inr (Response 201)),
      (''PUT'', ''https://dav.example/base/s/big.png'', Inl (JsError (Some 404) ''Not Found'')),
      (''PROPFIND'', ''https://dav.example/base/s'', Inl (JsError (Some 404) ''Not Found'')),
      (''PROPFIND'', ''https://dav.example/base/s'', Inl (JsError (Some 404) ''Not Found'')),
      (''MKCOL'', ''https://dav.example/base/s'', Inr (Response 201)),
      (''PUT'', ''https://dav.example/base/s/a.png'', Inr (Response 201))] \<and>
   notices (onDrop bigUploadsNotFound posix_dirname exampleSettings (Some openNote)
              [bigFile, pastedFile] emptyHost) =
     [Uploading ''big.png'', UploadOk ''big.png'', Uploading ''a.png'', UploadOk ''a.png''] \<and>
   editor (onDrop bigUploadsNotFound posix_dirname exampleSettings (Some openNote)
             [bigFile, pastedFile] emptyHost) =
     [''[big.png](https://dav.example/base/s/big.png)'' @ newline,
      ''[a.png](https://dav.example/base/s/a.png)'' @ newline]"
proof -
  have "map (\<lambda>c. (rq_method (fst c), rq_url (fst c), snd c))
     (calls (onDrop bigUploadsNotFound posix_dirname exampleSettings (Some openNote)
               [bigFile, pastedFile] emptyHost)) =
     [(''PROPFIND'', ''https://dav.example/base/s'', Inl (JsError (Some 404) ''Not Found'')),
      (''PROPFIND'', ''https://dav.example/base/s'', Inl (JsError (Some 404) ''Not Found'')),
      (''MKCOL'', ''https://dav.example/base/s'', Inr (Response 201)),
      (''PUT'', ''https://dav.example/base/s/big.png'', Inl (JsError (Some 404) ''Not Found'')),
      (''PROPFIND'', ''https://dav.example/base/s'', Inl (JsError (Some 404) ''Not Found'')),
      (''PROPFIND'', ''https://dav.example/base/s'', Inl (JsError (Some 404) ''Not Found'')),
      (''MKCOL'', ''https://dav.example/base/s'', Inr (Response 201)),
      (''PUT'', ''https://dav.example/base/s/a.png'', Inr (Response 201))]"
    by code_simp
  moreover have "notices (onDrop bigUploadsNotFound posix_dirname exampleSettings (Some openNote)
              [bigFile, pastedFile] emptyHost) =
     [Uploading ''big.png'', UploadOk ''big.png'', Uploading ''a.png'', UploadOk ''a.png'']"
    by code_simp
  moreover have "editor (onDrop bigUploadsNotFound posix_dirname exampleSettings (Some openNote)
             [bigFile, pastedFile] emptyHost) =
     [''[big.png](https://dav.example/base/s/big.png)'' @ newline,
      ''[a.png](https://dav.example/base/s/a.png)'' @ newline]"
    by code_simp
  ultimately show ?thesis by simp
qed

subsection \<open>Creating directories\<close>


lemma prefixPaths_length: "length (prefixPaths cur parts) = length parts"
  by (induction parts arbitrary: cur) simp_all



lemma createDirectoryLoop_present:
  "fst (webdavExists tr st (cur @ ''/'' @ part) h) \<Longrightarrow>
     createDirectoryLoop tr st cur (part # parts) h =
       createDirectoryLoop tr st (cur @ ''/'' @ part) parts
         (snd (webdavExists tr st (cur @ ''/'' @ part) h))"
  by (simp add: Let_def)


lemma dav_probe:
  "fst (webdavExists davRequestUrl st q h) = (stripTrailingSlash (webdavUrl st) @ q \<in> world h)"
  "world (snd (webdavExists davRequestUrl st q h)) = world h"
  "calls (snd (webdavExists davRequestUrl st q h)) =
     calls h @ [(probeParams st q,
                 if stripTrailingSlash (webdavUrl st) @ q \<in> world h then Inr (Response 207)
                 else Inl (JsError (Some 404) ''Not Found''))]"
  by (simp_all add: webdavExists_result webdavExists_effect request_effect davRequestUrl_def
        requestParams_def probeParams_def)



lemma dav_create_again:
  assumes "\<forall>q \<in> set (prefixPaths cur parts). stripTrailingSlash (webdavUrl st) @ q \<in> world h"
  shows "createDirectoryLoop davRequestUrl st cur parts h =
           (Inr (), h\<lparr>calls := calls h @
                        map (\<lambda>q. (probeParams st q, Inr (Response 207))) (prefixPaths cur parts)\<rparr>)"
  using assms
proof (induction parts arbitrary: cur h)
  case Nil
  then show ?case by simp
next
  case (Cons part parts)
  define cur' where "cur' = cur @ ''/'' @ part"
  define h1 where "h1 = snd (webdavExists davRequestUrl st cur' h)"
  from Cons.prems have here: "stripTrailingSlash (webdavUrl st) @ cur' \<in> world h"
    and rest: "\<forall>q \<in> set (prefixPaths cur' parts). stripTrailingSlash (webdavUrl st) @ q \<in> world h"
    by (simp_all add: cur'_def)
  have h1: "h1 = h\<lparr>calls := calls h @ [(probeParams st cur', Inr (Response 207))]\<rparr>"
    using here
    by (simp add: h1_def webdavExists_effect request_effect davRequestUrl_def requestParams_def
          probeParams_def)
  have step: "createDirectoryLoop davRequestUrl st cur (part # parts) h =
        createDirectoryLoop davRequestUrl st cur' parts h1"
    using here unfolding cur'_def h1_def
    by (intro createDirectoryLoop_present) (simp add: dav_probe(1))
  from rest have "\<forall>q \<in> set (prefixPaths cur' parts). stripTrailingSlash (webdavUrl st) @ q \<in> world h1"
    by (simp add: h1)
  from Cons.IH [OF this] show ?case
    unfolding step by (simp add: h1 cur'_def)
qed














end
